theory Spec2Isabelle
  imports Main "HOL-Library.Sublist" "HOL-Library.AList" "HOL-Library.Char_ord"
    "HOL-Library.List_Lexorder" "HOL-Library.Multiset"
begin

section \<open>University document generator: the document assembler and its content store\<close>

text \<open>
  The development embeds \<^verbatim>\<open>backend/enhanced_document_generator.py\<close> (class
  \<^verbatim>\<open>EnhancedDocumentGenerator\<close>) and the listing, deletion and generation routes of
  \<^verbatim>\<open>backend/enhanced_main.py\<close>.

  Python strings are \<^typ>\<open>string\<close>; a character stands for one code point. Exceptions are
  values of the type \<open>exn\<close>, and a function that may raise returns \<open>exn + 'a\<close>. What the
  program reads from its surroundings (the clock, \<^verbatim>\<open>uuid.uuid4()\<close>, the size of a
  written file) is collected in the record \<open>env\<close>; the directory tree is an explicit
  value threaded through the calls that touch it.
\<close>

subsection \<open>Strings\<close>

text \<open>
  \<^verbatim>\<open>str.replace(old, new)\<close>: occurrences of \<open>old\<close> are replaced from left to right
  without overlap; an empty \<open>old\<close> matches before every character and at the end.
\<close>

function str_replace :: "string \<Rightarrow> string \<Rightarrow> string \<Rightarrow> string" where
  "str_replace old new s =
     (if old = [] then new @ concat (map (\<lambda>c. c # new) s)
      else if s = [] then []
      else if prefix old s then new @ str_replace old new (drop (length old) s)
      else hd s # str_replace old new (tl s))"
  by pat_completeness auto
termination
  by (relation "measure (\<lambda>(old, new, s). length s)") auto

declare str_replace.simps [simp del]

definition digit_char :: "nat \<Rightarrow> char" where
  "digit_char n = ''0123456789'' ! (n mod 10)"

definition hex_char :: "nat \<Rightarrow> char" where
  "hex_char n = ''0123456789abcdef'' ! (n mod 16)"

text \<open>The \<open>w\<close> low decimal digits of \<open>n\<close>, most significant first (\<^verbatim>\<open>%02d\<close>, \<^verbatim>\<open>%04d\<close>,
  \<^verbatim>\<open>%06d\<close> on a number that fits).\<close>

fun zero_pad :: "nat \<Rightarrow> nat \<Rightarrow> string" where
  "zero_pad 0 n = []"
| "zero_pad (Suc w) n = zero_pad w (n div 10) @ [digit_char n]"

text \<open>The \<open>w\<close> low hexadecimal digits of \<open>n\<close>, most significant first (\<^verbatim>\<open>'%032x'\<close>).\<close>

fun hex_pad :: "nat \<Rightarrow> nat \<Rightarrow> string" where
  "hex_pad 0 n = []"
| "hex_pad (Suc w) n = hex_pad w (n div 16) @ [hex_char n]"

definition is_digit :: "char \<Rightarrow> bool" where
  "is_digit c = (c \<in> set ''0123456789'')"

definition is_hex :: "char \<Rightarrow> bool" where
  "is_hex c = (c \<in> set ''0123456789abcdef'')"

subsection \<open>The clock and the random identifier\<close>

text \<open>
  A reading of \<^verbatim>\<open>datetime.now()\<close>. The formats below are exact for the values the
  clock can return: a four-digit year, month 1 to 12, day 1 to 31, hour below 24, minute
  and second below 60, microsecond below one million.
\<close>

record datetime =
  year :: nat
  month :: nat
  day :: nat
  hour :: nat
  minute :: nat
  second :: nat
  microsecond :: nat

text \<open>\<^verbatim>\<open>strftime("%Y%m%d_%H%M%S")\<close>\<close>

definition strftime_compact :: "datetime \<Rightarrow> string" where
  "strftime_compact t =
     zero_pad 4 (year t) @ zero_pad 2 (month t) @ zero_pad 2 (day t) @ ''_'' @
     zero_pad 2 (hour t) @ zero_pad 2 (minute t) @ zero_pad 2 (second t)"

text \<open>\<^verbatim>\<open>str(uuid.uuid4())\<close>: the 128-bit value as 32 hexadecimal digits in groups of
  8, 4, 4, 4 and 12.\<close>

definition str_uuid :: "nat \<Rightarrow> string" where
  "str_uuid u =
     (let h = hex_pad 32 (u mod 2 ^ 128)
      in take 8 h @ ''-'' @ take 4 (drop 8 h) @ ''-'' @ take 4 (drop 12 h) @ ''-'' @
         take 4 (drop 16 h) @ ''-'' @ drop 20 h)"

record env =
  now_footer :: datetime
  now_meta :: datetime
  now_file :: datetime
  uuid4 :: nat
  now_response :: datetime
  fs_now :: datetime
  dir_size :: nat
  docx_size :: nat

subsection \<open>File names\<close>

text \<open>\<^verbatim>\<open>generate_unique_filename\<close>; the clock reading is \<open>now_file\<close>, the identifier
  \<open>uuid4\<close>.\<close>

definition generate_unique_filename :: "env \<Rightarrow> string \<Rightarrow> string \<Rightarrow> string \<Rightarrow> string" where
  "generate_unique_filename e document_type student_name purpose =
     (let timestamp = strftime_compact (now_file e);
          unique_id = take 8 (str_uuid (uuid4 e));
          clean_name = str_replace ''/'' ''_'' (str_replace '' '' ''_'' student_name);
          clean_purpose = take 20 (str_replace ''/'' ''_'' (str_replace '' '' ''_'' purpose))
      in document_type @ ''_'' @ clean_name @ ''_'' @ clean_purpose @ ''_'' @ timestamp @
         ''_'' @ unique_id @ ''.docx'')"

text \<open>The sanitising the specification describes: every space and every forward slash
  becomes an underscore, everything else stays.\<close>

definition underscored :: "string \<Rightarrow> string" where
  "underscored s = map (\<lambda>c. if c = CHR '' '' \<or> c = CHR ''/'' then CHR ''_'' else c) s"

definition sample_now :: datetime where
  "sample_now = \<lparr>year = 2025, month = 3, day = 4, hour = 9, minute = 5, second = 7,
     microsecond = 0\<rparr>"

definition sample_env :: env where
  "sample_env = \<lparr>now_footer = sample_now, now_meta = sample_now, now_file = sample_now,
     uuid4 = 0x3f2a9c04b1d74e6a8c5d0123456789ab, now_response = sample_now,
     fs_now = sample_now, dir_size = 4096, docx_size = 36864\<rparr>"

subsection \<open>Exceptions\<close>

datatype os_error = FileNotFoundError | FileExistsError | NotADirectoryError | IsADirectoryError

text \<open>
  The exceptions the modelled code can raise, each with its message (for \<open>KeyError\<close> the
  missing key, for \<open>OSError\<close> the path, for \<open>HTTPException\<close> the status code and the
  detail). \<open>NotModelled\<close> marks the uses of \<^verbatim>\<open>str.format\<close> that lie outside the part of
  the format language embedded here; no template of the program reaches it.
\<close>

datatype exn =
    ValueError string
  | KeyError string
  | IndexError string
  | OSError os_error string
  | HTTPException nat string
  | NotModelled string

text \<open>\<^verbatim>\<open>d[key]\<close> on a dictionary with string keys and values.\<close>

definition getitem :: "(string \<rightharpoonup> string) \<Rightarrow> string \<Rightarrow> exn + string" where
  "getitem d k = (case d k of None \<Rightarrow> Inl (KeyError k) | Some v \<Rightarrow> Inr v)"

subsection \<open>Template formatting\<close>

text \<open>
  \<^verbatim>\<open>template.format(**kw)\<close> with keyword arguments only and string values. Literal text
  is copied, \<^verbatim>\<open>{{\<close> and \<^verbatim>\<open>}}\<close> stand for one brace, \<^verbatim>\<open>{name}\<close> is replaced by the
  value of the keyword \<open>name\<close>; the inserted value is not scanned again. A field is
  looked up when its closing brace is reached, so an error in an earlier field wins over
  one further right. Positional fields, conversions, format specifications, attribute and
  index lookups and nested braces are outside the embedded part.
\<close>

definition plain_keyword :: "string \<Rightarrow> bool" where
  "plain_keyword f = (f \<noteq> [] \<and> \<not> list_all is_digit f \<and> list_all (\<lambda>c. c \<notin> set ''!:.[]'') f)"

definition field_value :: "(string \<rightharpoonup> string) \<Rightarrow> string \<Rightarrow> exn + string" where
  "field_value kw f = (if plain_keyword f then getitem kw f else Inl (NotModelled f))"

fun prepend :: "string \<Rightarrow> exn + string \<Rightarrow> exn + string" where
  "prepend s (Inl e) = Inl e"
| "prepend s (Inr r) = Inr (s @ r)"

definition single_brace_error :: "char \<Rightarrow> exn" where
  "single_brace_error c =
     ValueError (''Single '' @ [CHR 0x27, c, CHR 0x27] @ '' encountered in format string'')"

definition expected_close_error :: exn where
  "expected_close_error =
     ValueError (''expected '' @ [CHR 0x27, CHR ''}'', CHR 0x27] @ '' before end of string'')"

text \<open>The second argument is \<open>None\<close> in literal text and \<open>Some f\<close> inside a replacement
  field of which \<open>f\<close> has been read.\<close>

fun format_go :: "(string \<rightharpoonup> string) \<Rightarrow> string option \<Rightarrow> string \<Rightarrow> exn + string" where
  "format_go kw None [] = Inr []"
| "format_go kw (Some f) [] = Inl expected_close_error"
| "format_go kw (Some f) (c # cs) =
     (if c = CHR ''}'' then
        (case field_value kw f of
           Inl e \<Rightarrow> Inl e
         | Inr v \<Rightarrow> prepend v (format_go kw None cs))
      else if c = CHR ''{'' then Inl (NotModelled (f @ [c]))
      else format_go kw (Some (f @ [c])) cs)"
| "format_go kw None (c # cs) =
     (if c = CHR ''{'' then
        (case cs of
           [] \<Rightarrow> Inl (single_brace_error CHR ''{'')
         | d # ds \<Rightarrow>
             if d = CHR ''{'' then prepend ''{'' (format_go kw None ds)
             else format_go kw (Some []) cs)
      else if c = CHR ''}'' then
        (case cs of
           [] \<Rightarrow> Inl (single_brace_error CHR ''}'')
         | d # ds \<Rightarrow>
             if d = CHR ''}'' then prepend ''}'' (format_go kw None ds)
             else Inl (single_brace_error CHR ''}''))
      else prepend [c] (format_go kw None cs))"

definition str_format :: "string \<Rightarrow> (string \<rightharpoonup> string) \<Rightarrow> exn + string" where
  "str_format template kw = format_go kw None template"

subsection \<open>Letter case\<close>

text \<open>\<^verbatim>\<open>str.upper\<close>, \<^verbatim>\<open>str.lower\<close> and \<^verbatim>\<open>str.title\<close> on the letters a to z; the
  strings the program passes to them (university names, document-type codes) have no
  other cased characters.\<close>

definition lower_letters :: string where
  "lower_letters = ''abcdefghijklmnopqrstuvwxyz''"

definition upper_letters :: string where
  "upper_letters = ''ABCDEFGHIJKLMNOPQRSTUVWXYZ''"

definition upper_char :: "char \<Rightarrow> char" where
  "upper_char c = (case map_of (zip lower_letters upper_letters) c of Some u \<Rightarrow> u | None \<Rightarrow> c)"

definition lower_char :: "char \<Rightarrow> char" where
  "lower_char c = (case map_of (zip upper_letters lower_letters) c of Some l \<Rightarrow> l | None \<Rightarrow> c)"

definition is_cased :: "char \<Rightarrow> bool" where
  "is_cased c = (c \<in> set lower_letters \<or> c \<in> set upper_letters)"

definition str_upper :: "string \<Rightarrow> string" where
  "str_upper s = map upper_char s"

definition str_lower :: "string \<Rightarrow> string" where
  "str_lower s = map lower_char s"

fun title_go :: "bool \<Rightarrow> string \<Rightarrow> string" where
  "title_go previous_is_cased [] = []"
| "title_go previous_is_cased (c # cs) =
     (if previous_is_cased then lower_char c else upper_char c) # title_go (is_cased c) cs"

definition str_title :: "string \<Rightarrow> string" where
  "str_title s = title_go False s"

subsection \<open>Reference data\<close>

record university =
  u_name :: string
  u_address :: string
  u_phone :: string
  u_website :: string
  u_color :: string

record document_template =
  t_title :: string
  t_template :: string

definition universities :: "string \<rightharpoonup> university" where
  "universities = map_of
     [(''harvard'', \<lparr>u_name = ''Harvard University'', u_address = ''Cambridge, MA 02138'',
         u_phone = ''(617) 495-1000'', u_website = ''harvard.edu'', u_color = ''8B0000''\<rparr>),
      (''stanford'', \<lparr>u_name = ''Stanford University'', u_address = ''Stanford, CA 94305'',
         u_phone = ''(650) 723-2300'', u_website = ''stanford.edu'', u_color = ''CC0000''\<rparr>),
      (''mit'', \<lparr>u_name = ''Massachusetts Institute of Technology'',
         u_address = ''Cambridge, MA 02139'', u_phone = ''(617) 253-1000'',
         u_website = ''mit.edu'', u_color = ''8A2BE2''\<rparr>),
      (''generic'', \<lparr>u_name = ''University'', u_address = ''University Address'',
         u_phone = ''University Phone'', u_website = ''university.edu'',
         u_color = ''2F4F4F''\<rparr>)]"

definition bonafide_template :: string where
  "bonafide_template = ''This is to certify that {student_name}, Roll No: {roll_number}, is a bonafide student of this institution. He/She has been studying in this institution since {admission_date} in the {course} program in the Department of {department}. This certificate is issued for the purpose of {purpose}.''"

definition noc_template :: string where
  "noc_template = ''This is to certify that we have no objection to {student_name}, Roll No: {roll_number}, a student of {course} program in the Department of {department}, for {purpose}. The student is in good academic standing and has no disciplinary issues.''"

definition character_template :: string where
  "character_template = ''This is to certify that {student_name}, Roll No: {roll_number}, is a student of {course} program in the Department of {department}. During his/her stay in this institution, his/her character and conduct have been found to be satisfactory. This certificate is issued for {purpose}.''"

definition transfer_template :: string where
  "transfer_template = ''This is to certify that {student_name}, Roll No: {roll_number}, was a student of this institution from {admission_date} studying {course} in the Department of {department}. He/She is now seeking transfer for {purpose}. His/Her character and conduct during the stay were satisfactory.''"

definition fee_structure_template :: string where
  "fee_structure_template = ''This letter provides the official fee structure for {student_name}, Roll No: {roll_number}, enrolled in {course} program in the Department of {department}. This information is provided for {purpose}. Please contact the finance office for detailed fee breakdown.''"

definition transcript_template :: string where
  "transcript_template = ''This acknowledges the request for official academic transcripts for {student_name}, Roll No: {roll_number}, enrolled in {course} program in the Department of {department}. The transcripts are requested for {purpose}. Official transcripts will be processed within 5-7 business days.''"

definition document_templates :: "string \<rightharpoonup> document_template" where
  "document_templates = map_of
     [(''bonafide'', \<lparr>t_title = ''BONAFIDE CERTIFICATE'', t_template = bonafide_template\<rparr>),
      (''noc'', \<lparr>t_title = ''NO OBJECTION CERTIFICATE'', t_template = noc_template\<rparr>),
      (''character'', \<lparr>t_title = ''CHARACTER CERTIFICATE'', t_template = character_template\<rparr>),
      (''transfer'', \<lparr>t_title = ''TRANSFER CERTIFICATE'', t_template = transfer_template\<rparr>),
      (''fee_structure'', \<lparr>t_title = ''FEE STRUCTURE LETTER'',
         t_template = fee_structure_template\<rparr>),
      (''transcript'', \<lparr>t_title = ''ACADEMIC TRANSCRIPT REQUEST'',
         t_template = transcript_template\<rparr>)]"

subsection \<open>Documents\<close>

text \<open>
  The part of a python-docx \<^verbatim>\<open>Document\<close> the generator writes: the sections with their
  margins and header paragraphs, the body paragraphs in the order they were added, and the
  core properties. Lengths are in English Metric Units, as \<^verbatim>\<open>docx.shared\<close> has them.
\<close>

definition Inches :: "nat \<Rightarrow> nat" where
  "Inches n = 914400 * n"

definition Pt :: "nat \<Rightarrow> nat" where
  "Pt n = 12700 * n"

datatype alignment = LEFT | CENTER | RIGHT | JUSTIFY

record run =
  r_text :: string
  r_size :: "nat option"
  r_bold :: "bool option"
  r_underline :: "bool option"
  r_font :: "string option"

record docx_paragraph =
  p_alignment :: "alignment option"
  p_runs :: "run list"

record section_props =
  top_margin :: nat
  bottom_margin :: nat
  left_margin :: nat
  right_margin :: nat
  header_paragraphs :: "docx_paragraph list"

record core_properties =
  cp_title :: string
  cp_subject :: string
  cp_author :: string
  cp_comments :: string

record document =
  sections :: "section_props list"
  paragraphs :: "docx_paragraph list"
  core_props :: core_properties

definition new_run :: "string \<Rightarrow> run" where
  "new_run t = \<lparr>r_text = t, r_size = None, r_bold = None, r_underline = None, r_font = None\<rparr>"

definition new_paragraph :: docx_paragraph where
  "new_paragraph = \<lparr>p_alignment = None, p_runs = []\<rparr>"

text \<open>\<^verbatim>\<open>Document()\<close>: the default template, one section with an empty header paragraph
  and no body paragraph.\<close>

definition Document :: document where
  "Document =
     \<lparr>sections = [\<lparr>top_margin = Inches 1, bottom_margin = Inches 1, left_margin = 1143000,
        right_margin = 1143000, header_paragraphs = [new_paragraph]\<rparr>],
      paragraphs = [],
      core_props = \<lparr>cp_title = [], cp_subject = [], cp_author = ''python-docx'',
        cp_comments = ''generated by python-docx''\<rparr>\<rparr>"

definition add_paragraph :: "document \<Rightarrow> docx_paragraph \<Rightarrow> document" where
  "add_paragraph doc p = doc\<lparr>paragraphs := paragraphs doc @ [p]\<rparr>"

text \<open>\<^verbatim>\<open>add_watermark\<close>: the first header paragraph of the first section gets the text
  as its only run.\<close>

definition add_watermark :: "document \<Rightarrow> string \<Rightarrow> exn + document" where
  "add_watermark doc t =
     (case sections doc of
        [] \<Rightarrow> Inl (IndexError ''list index out of range'')
      | section # rest \<Rightarrow>
          (case header_paragraphs section of
             [] \<Rightarrow> Inl (IndexError ''list index out of range'')
           | paragraph # ps \<Rightarrow>
               let run = (new_run t)\<lparr>r_size := Some (Pt 60), r_font := Some ''Arial''\<rparr>;
                   paragraph' = paragraph\<lparr>p_runs := [run], p_alignment := Some CENTER\<rparr>
               in Inr (doc\<lparr>sections := section\<lparr>header_paragraphs := paragraph' # ps\<rparr> # rest\<rparr>)))"

definition add_university_logo_placeholder :: "document \<Rightarrow> string \<Rightarrow> document" where
  "add_university_logo_placeholder doc university_name =
     add_paragraph doc
       \<lparr>p_alignment = Some CENTER,
        p_runs = [(new_run (''['' @ university_name @ '' LOGO]''))
                    \<lparr>r_size := Some (Pt 14), r_bold := Some True\<rparr>]\<rparr>"

definition create_document_header :: "document \<Rightarrow> university \<Rightarrow> document" where
  "create_document_header doc university_data =
     (let title_para = \<lparr>p_alignment = Some CENTER,
            p_runs = [(new_run (str_upper (u_name university_data)))
              \<lparr>r_size := Some (Pt 24), r_bold := Some True,
               r_font := Some ''Times New Roman''\<rparr>]\<rparr>;
          office_para = \<lparr>p_alignment = Some CENTER,
            p_runs = [(new_run ''Office of the Registrar'')
              \<lparr>r_size := Some (Pt 16), r_font := Some ''Times New Roman''\<rparr>]\<rparr>;
          contact_para = \<lparr>p_alignment = Some CENTER,
            p_runs = [(new_run (u_address university_data @ [CHR 0x0A] @ ''Tel: '' @
                         u_phone university_data))
              \<lparr>r_size := Some (Pt 12), r_font := Some ''Times New Roman''\<rparr>]\<rparr>;
          separator = new_paragraph\<lparr>p_runs := [new_run (replicate 80 CHR ''_'')]\<rparr>
      in add_paragraph (add_paragraph (add_paragraph (add_paragraph doc title_para)
           office_para) contact_para) separator)"

definition create_document_title :: "document \<Rightarrow> string \<Rightarrow> document" where
  "create_document_title doc title =
     (let title_para = \<lparr>p_alignment = Some CENTER,
            p_runs = [(new_run title)
              \<lparr>r_size := Some (Pt 20), r_bold := Some True, r_underline := Some True,
               r_font := Some ''Times New Roman''\<rparr>]\<rparr>
      in add_paragraph (add_paragraph (add_paragraph doc new_paragraph) title_para)
           new_paragraph)"

text \<open>\<^verbatim>\<open>create_document_body\<close> does not read its \<open>student_data\<close> argument. Its
  assignment to \<^verbatim>\<open>font.space_after\<close> names no property of a python-docx font and leaves
  the document as it is.\<close>

definition create_document_body ::
    "document \<Rightarrow> string \<Rightarrow> (string \<rightharpoonup> string) \<Rightarrow> document" where
  "create_document_body doc template_text student_data =
     add_paragraph doc
       \<lparr>p_alignment = Some JUSTIFY,
        p_runs = [(new_run template_text)
                    \<lparr>r_size := Some (Pt 12), r_font := Some ''Times New Roman''\<rparr>]\<rparr>"

definition month_names :: "string list" where
  "month_names = [''January'', ''February'', ''March'', ''April'', ''May'', ''June'', ''July'',
     ''August'', ''September'', ''October'', ''November'', ''December'']"

text \<open>\<^verbatim>\<open>strftime("%B %d, %Y")\<close>\<close>

definition strftime_long :: "datetime \<Rightarrow> string" where
  "strftime_long t =
     (if 1 \<le> month t \<and> month t \<le> 12 then month_names ! (month t - 1) else []) @ '' '' @
     zero_pad 2 (day t) @ '', '' @ zero_pad 4 (year t)"

text \<open>\<^verbatim>\<open>strftime('%Y-%m-%d %H:%M:%S')\<close>\<close>

definition strftime_iso_seconds :: "datetime \<Rightarrow> string" where
  "strftime_iso_seconds t =
     zero_pad 4 (year t) @ ''-'' @ zero_pad 2 (month t) @ ''-'' @ zero_pad 2 (day t) @ '' '' @
     zero_pad 2 (hour t) @ '':'' @ zero_pad 2 (minute t) @ '':'' @ zero_pad 2 (second t)"

text \<open>\<^verbatim>\<open>create_document_footer\<close> reads the clock (\<open>now_footer\<close>); it does not read
  \<open>student_data\<close>.\<close>

definition create_document_footer ::
    "env \<Rightarrow> document \<Rightarrow> university \<Rightarrow> (string \<rightharpoonup> string) \<Rightarrow> document" where
  "create_document_footer e doc university_data student_data =
     (let times = (\<lambda>r. r\<lparr>r_size := Some (Pt 12), r_font := Some ''Times New Roman''\<rparr>);
          current_date = strftime_long (now_footer e);
          date_para = \<lparr>p_alignment = Some LEFT,
            p_runs = [times (new_run (''Date: '' @ current_date))]\<rparr>;
          place_para = \<lparr>p_alignment = Some LEFT,
            p_runs = [times (new_run (''Place: '' @ u_name university_data))]\<rparr>;
          signature_para = \<lparr>p_alignment = Some RIGHT,
            p_runs = [times (new_run (replicate 40 CHR ''_''))]\<rparr>;
          registrar_para = \<lparr>p_alignment = Some RIGHT,
            p_runs = [(times (new_run ''Registrar''))\<lparr>r_bold := Some True\<rparr>]\<rparr>;
          seal_para = \<lparr>p_alignment = Some RIGHT,
            p_runs = [(new_run (u_name university_data))
              \<lparr>r_size := Some (Pt 10), r_font := Some ''Times New Roman''\<rparr>]\<rparr>
      in add_paragraph (add_paragraph (add_paragraph (add_paragraph (add_paragraph
           (add_paragraph (add_paragraph doc new_paragraph) date_para) place_para)
           new_paragraph) signature_para) registrar_para) seal_para)"

text \<open>\<^verbatim>\<open>add_document_metadata\<close> reads \<^verbatim>\<open>student_data['student_name']\<close> for the title
  and again for the comments, and the clock (\<open>now_meta\<close>).\<close>

definition add_document_metadata ::
    "env \<Rightarrow> document \<Rightarrow> (string \<rightharpoonup> string) \<Rightarrow> string \<Rightarrow> exn + document" where
  "add_document_metadata e doc student_data document_type =
     (case getitem student_data ''student_name'' of
        Inl err \<Rightarrow> Inl err
      | Inr student_name \<Rightarrow>
          Inr (doc\<lparr>core_props :=
            \<lparr>cp_title = str_title document_type @ '' - '' @ student_name,
             cp_subject = ''University Document: '' @ document_type,
             cp_author = ''University Registrar Office'',
             cp_comments = ''Generated for '' @ student_name @ '' on '' @
               strftime_iso_seconds (now_meta e)\<rparr>\<rparr>))"

subsection \<open>Generation\<close>

text \<open>Lines 246 to 256 of \<^verbatim>\<open>generate_document\<close>: the honorific, the six dictionary
  reads in the order the call evaluates them, and the formatting of the template.\<close>

definition render_body :: "string \<Rightarrow> (string \<rightharpoonup> string) \<Rightarrow> exn + string" where
  "render_body template student_data =
     (case getitem student_data ''student_name'' of Inl err \<Rightarrow> Inl err | Inr student_name \<Rightarrow>
      let formatted_name = ''Mr./Ms. '' @ student_name in
      case getitem student_data ''roll_number'' of Inl err \<Rightarrow> Inl err | Inr roll_number \<Rightarrow>
      case getitem student_data ''course'' of Inl err \<Rightarrow> Inl err | Inr course \<Rightarrow>
      case getitem student_data ''department'' of Inl err \<Rightarrow> Inl err | Inr department \<Rightarrow>
      case getitem student_data ''admission_date'' of Inl err \<Rightarrow> Inl err | Inr admission_date \<Rightarrow>
      case getitem student_data ''purpose'' of Inl err \<Rightarrow> Inl err | Inr purpose \<Rightarrow>
      str_format template
        (map_of [(''student_name'', formatted_name), (''roll_number'', roll_number),
                 (''course'', course), (''department'', department),
                 (''admission_date'', admission_date), (''purpose'', purpose)]))"

definition set_margins :: "section_props \<Rightarrow> section_props" where
  "set_margins section = section\<lparr>top_margin := Inches 1, bottom_margin := Inches 1,
     left_margin := Inches 1, right_margin := Inches 1\<rparr>"

definition generate_document ::
    "env \<Rightarrow> string \<Rightarrow> string \<Rightarrow> (string \<rightharpoonup> string) \<Rightarrow> exn + document \<times> string" where
  "generate_document e university_code document_type student_data =
     (case universities university_code of
        None \<Rightarrow> Inl (ValueError (''Invalid university code: '' @ university_code))
      | Some university_data \<Rightarrow>
     (case document_templates document_type of
        None \<Rightarrow> Inl (ValueError (''Invalid document type: '' @ document_type))
      | Some template_data \<Rightarrow>
     (let doc0 = Document\<lparr>sections := map set_margins (sections Document)\<rparr> in
      case add_watermark doc0 ''OFFICIAL DOCUMENT'' of Inl err \<Rightarrow> Inl err | Inr doc1 \<Rightarrow>
      let doc2 = add_university_logo_placeholder doc1 (u_name university_data);
          doc3 = create_document_header doc2 university_data;
          doc4 = create_document_title doc3 (t_title template_data) in
      case render_body (t_template template_data) student_data of
        Inl err \<Rightarrow> Inl err
      | Inr body_text \<Rightarrow>
      let doc5 = create_document_body doc4 body_text student_data;
          doc6 = create_document_footer e doc5 university_data student_data in
      case add_document_metadata e doc6 student_data document_type of
        Inl err \<Rightarrow> Inl err
      | Inr doc7 \<Rightarrow>
      case getitem student_data ''student_name'' of Inl err \<Rightarrow> Inl err | Inr student_name \<Rightarrow>
      case getitem student_data ''purpose'' of Inl err \<Rightarrow> Inl err | Inr purpose \<Rightarrow>
      Inr (doc7, generate_unique_filename e document_type student_name purpose))))"

subsection \<open>Observing a generated document\<close>

text \<open>\<^verbatim>\<open>paragraph.text\<close>: the texts of the runs, concatenated. The generator adds sixteen
  body paragraphs; the title is the seventh and the body text the ninth.\<close>

definition paragraph_text :: "docx_paragraph \<Rightarrow> string" where
  "paragraph_text p = concat (map r_text (p_runs p))"

definition title_text :: "document \<Rightarrow> string" where
  "title_text doc = paragraph_text (paragraphs doc ! 6)"

definition body_text :: "document \<Rightarrow> string" where
  "body_text doc = paragraph_text (paragraphs doc ! 8)"

text \<open>\<^verbatim>\<open>sub in s\<close> on strings.\<close>

fun contains :: "string \<Rightarrow> string \<Rightarrow> bool" where
  "contains sub [] = (sub = [])"
| "contains sub (c # cs) = (prefix sub (c # cs) \<or> contains sub cs)"


subsection \<open>Paths and the directory tree\<close>

text \<open>
  Paths follow \<^verbatim>\<open>posixpath\<close>. A path is resolved from the root of the modelled tree, which
  is also the working directory of the process: it is split at the slashes, and empty
  components and \<open>.\<close> are dropped. A component \<open>..\<close> is kept as a name; the file names
  the generator produces and the directory \<^verbatim>\<open>generated\<close> have none. The tree is an
  association list from resolved paths to nodes, in the order \<^verbatim>\<open>os.listdir\<close> reports
  them; the root always exists and is a directory.
\<close>

definition os_path_join :: "string \<Rightarrow> string \<Rightarrow> string" where
  "os_path_join a b =
     (if b \<noteq> [] \<and> hd b = CHR ''/'' then b
      else if a = [] \<or> last a = CHR ''/'' then a @ b
      else a @ ''/'' @ b)"


fun split_slash :: "string \<Rightarrow> string list" where
  "split_slash [] = [[]]"
| "split_slash (c # cs) =
     (if c = CHR ''/'' then [] # split_slash cs
      else (case split_slash cs of [] \<Rightarrow> [[c]] | w # ws \<Rightarrow> (c # w) # ws))"

definition valid_name :: "string \<Rightarrow> bool" where
  "valid_name w = (w \<noteq> [] \<and> w \<noteq> ''.'' \<and> CHR ''/'' \<notin> set w)"

definition path_key :: "string \<Rightarrow> string list" where
  "path_key p = filter (\<lambda>w. w \<noteq> [] \<and> w \<noteq> ''.'') (split_slash p)"

record stat_result =
  st_size :: nat
  st_ctime :: datetime

datatype inode = Dir stat_result | File stat_result document

type_synonym filesystem = "(string list \<times> inode) list"

datatype kind = IsDir | IsFile

definition kind_at :: "filesystem \<Rightarrow> string list \<Rightarrow> kind option" where
  "kind_at fs k =
     (if k = [] then Some IsDir
      else (case map_of fs k of
              None \<Rightarrow> None
            | Some (Dir st) \<Rightarrow> Some IsDir
            | Some (File st doc) \<Rightarrow> Some IsFile))"

text \<open>Every name in the tree is a proper file name.\<close>

definition wf_fs :: "filesystem \<Rightarrow> bool" where
  "wf_fs fs = list_all (\<lambda>k. list_all valid_name k) (map fst fs)"

definition os_path_exists :: "filesystem \<Rightarrow> string \<Rightarrow> bool" where
  "os_path_exists fs p =
     (p \<noteq> [] \<and>
      (case kind_at fs (path_key p) of
         None \<Rightarrow> False
       | Some IsDir \<Rightarrow> True
       | Some IsFile \<Rightarrow> last p \<noteq> CHR ''/''))"

text \<open>\<^verbatim>\<open>os.makedirs(name, exist_ok=True)\<close>: the missing directories on the way are made,
  outermost first; a regular file in the way is an error.\<close>

fun mkdir_chain :: "env \<Rightarrow> filesystem \<Rightarrow> string \<Rightarrow> string list list \<Rightarrow> exn + filesystem" where
  "mkdir_chain e fs name [] = Inr fs"
| "mkdir_chain e fs name (k # ks) =
     (case kind_at fs k of
        None \<Rightarrow>
          mkdir_chain e (fs @ [(k, Dir \<lparr>st_size = dir_size e, st_ctime = fs_now e\<rparr>)]) name ks
      | Some IsDir \<Rightarrow> mkdir_chain e fs name ks
      | Some IsFile \<Rightarrow>
          Inl (OSError (if ks = [] then FileExistsError else NotADirectoryError) name))"

definition os_makedirs :: "env \<Rightarrow> filesystem \<Rightarrow> string \<Rightarrow> exn + filesystem" where
  "os_makedirs e fs name =
     (if name = [] then Inl (OSError FileNotFoundError name)
      else mkdir_chain e fs name (tl (prefixes (path_key name))))"

text \<open>\<^verbatim>\<open>doc.save(path)\<close>: the file is created or replaced; its size and change time come
  from the surroundings.\<close>

definition doc_save :: "env \<Rightarrow> filesystem \<Rightarrow> document \<Rightarrow> string \<Rightarrow> exn + filesystem" where
  "doc_save e fs doc p =
     (let k = path_key p in
      if p = [] then Inl (OSError FileNotFoundError p)
      else if last p = CHR ''/'' \<or> kind_at fs k = Some IsDir then Inl (OSError IsADirectoryError p)
      else (case kind_at fs (butlast k) of
              None \<Rightarrow> Inl (OSError FileNotFoundError p)
            | Some IsFile \<Rightarrow> Inl (OSError NotADirectoryError p)
            | Some IsDir \<Rightarrow>
                Inr (AList.update k
                  (File \<lparr>st_size = docx_size e, st_ctime = fs_now e\<rparr> doc) fs)))"

definition os_remove :: "filesystem \<Rightarrow> string \<Rightarrow> exn + filesystem" where
  "os_remove fs p =
     (if p = [] then Inl (OSError FileNotFoundError p)
      else (case kind_at fs (path_key p) of
              None \<Rightarrow> Inl (OSError FileNotFoundError p)
            | Some IsDir \<Rightarrow> Inl (OSError IsADirectoryError p)
            | Some IsFile \<Rightarrow>
                if last p = CHR ''/'' then Inl (OSError NotADirectoryError p)
                else Inr (AList.delete (path_key p) fs)))"

text \<open>The names of the entries directly below the directory \<open>d\<close>.\<close>

definition children :: "filesystem \<Rightarrow> string list \<Rightarrow> string list" where
  "children fs d = map last (filter (\<lambda>k. k \<noteq> [] \<and> butlast k = d) (map fst fs))"

definition os_listdir :: "filesystem \<Rightarrow> string \<Rightarrow> exn + string list" where
  "os_listdir fs p =
     (if p = [] then Inl (OSError FileNotFoundError p)
      else (case kind_at fs (path_key p) of
              None \<Rightarrow> Inl (OSError FileNotFoundError p)
            | Some IsFile \<Rightarrow> Inl (OSError NotADirectoryError p)
            | Some IsDir \<Rightarrow> Inr (children fs (path_key p))))"

definition os_stat :: "filesystem \<Rightarrow> string \<Rightarrow> exn + stat_result" where
  "os_stat fs p =
     (case map_of fs (path_key p) of
        None \<Rightarrow> Inl (OSError FileNotFoundError p)
      | Some (Dir st) \<Rightarrow> Inr st
      | Some (File st doc) \<Rightarrow>
          if p \<noteq> [] \<and> last p = CHR ''/'' then Inl (OSError NotADirectoryError p) else Inr st)"

subsection \<open>Saving\<close>

definition save_document ::
    "env \<Rightarrow> filesystem \<Rightarrow> document \<Rightarrow> string \<Rightarrow> string \<Rightarrow> (exn + string) \<times> filesystem" where
  "save_document e fs doc filename output_dir =
     (case os_makedirs e fs output_dir of
        Inl err \<Rightarrow> (Inl err, fs)
      | Inr fs1 \<Rightarrow>
          let file_path = os_path_join output_dir filename in
          (case doc_save e fs1 doc file_path of
             Inl err \<Rightarrow> (Inl err, fs1)
           | Inr fs2 \<Rightarrow> (Inr file_path, fs2)))"

record save_result =
  gs_success :: bool
  gs_filename :: string
  gs_file_path :: string
  gs_download_url :: string
  gs_message :: string

definition generate_and_save ::
    "env \<Rightarrow> filesystem \<Rightarrow> string \<Rightarrow> string \<Rightarrow> (string \<rightharpoonup> string) \<Rightarrow> string \<Rightarrow>
     (exn + save_result) \<times> filesystem" where
  "generate_and_save e fs university_code document_type student_data output_dir =
     (case generate_document e university_code document_type student_data of
        Inl err \<Rightarrow> (Inl err, fs)
      | Inr (doc, filename) \<Rightarrow>
          (case save_document e fs doc filename output_dir of
             (Inl err, fs') \<Rightarrow> (Inl err, fs')
           | (Inr file_path, fs') \<Rightarrow>
               (Inr \<lparr>gs_success = True, gs_filename = filename, gs_file_path = file_path,
                     gs_download_url = ''/download/'' @ filename,
                     gs_message = ''Document generated successfully: '' @ filename\<rparr>, fs')))"

subsection \<open>The routes\<close>

text \<open>\<^verbatim>\<open>str(e)\<close> of an exception; for \<open>HTTPException\<close> it is Starlette's
  \<open>status: detail\<close>.\<close>

definition os_error_text :: "os_error \<Rightarrow> string" where
  "os_error_text k =
     (case k of
        FileNotFoundError \<Rightarrow> ''[Errno 2] No such file or directory: ''
      | FileExistsError \<Rightarrow> ''[Errno 17] File exists: ''
      | NotADirectoryError \<Rightarrow> ''[Errno 20] Not a directory: ''
      | IsADirectoryError \<Rightarrow> ''[Errno 21] Is a directory: '')"

fun decimal :: "nat \<Rightarrow> nat \<Rightarrow> string" where
  "decimal 0 n = []"
| "decimal (Suc fuel) n = (if n < 10 then [digit_char n] else decimal fuel (n div 10) @ [digit_char n])"

definition str_nat :: "nat \<Rightarrow> string" where
  "str_nat n = decimal (Suc n) n"

fun str_exn :: "exn \<Rightarrow> string" where
  "str_exn (ValueError m) = m"
| "str_exn (KeyError k) = [CHR 0x27] @ k @ [CHR 0x27]"
| "str_exn (IndexError m) = m"
| "str_exn (OSError k p) = os_error_text k @ [CHR 0x27] @ p @ [CHR 0x27]"
| "str_exn (HTTPException code detail) = str_nat code @ '': '' @ detail"
| "str_exn (NotModelled m) = m"

text \<open>\<^verbatim>\<open>datetime.isoformat()\<close>\<close>

definition isoformat :: "datetime \<Rightarrow> string" where
  "isoformat t =
     zero_pad 4 (year t) @ ''-'' @ zero_pad 2 (month t) @ ''-'' @ zero_pad 2 (day t) @ ''T'' @
     zero_pad 2 (hour t) @ '':'' @ zero_pad 2 (minute t) @ '':'' @ zero_pad 2 (second t) @
     (if microsecond t = 0 then [] else ''.'' @ zero_pad 6 (microsecond t))"

text \<open>\<^verbatim>\<open>s.endswith(suffix)\<close>\<close>

definition endswith :: "string \<Rightarrow> string \<Rightarrow> bool" where
  "endswith s suf = (length suf \<le> length s \<and> drop (length s - length suf) s = suf)"

text \<open>The request models of the generation route. \<open>year_of_study\<close>, \<open>email\<close> and
  \<open>phone\<close> are carried by the request.\<close>

record StudentData =
  rq_student_name :: string
  rq_roll_number :: string
  rq_course :: string
  rq_department :: string
  rq_year_of_study :: string
  rq_admission_date :: string
  rq_email :: "string option"
  rq_phone :: "string option"
  rq_purpose :: string

record DocumentRequest =
  rq_university_code :: string
  rq_document_type :: string
  rq_student_data :: StudentData

record DocumentResponse =
  rs_success :: bool
  rs_filename :: string
  rs_download_url :: string
  rs_message :: string
  rs_generated_at :: string

text \<open>
  \<^verbatim>\<open>POST /generate-document\<close> (the function \<^verbatim>\<open>generate_document\<close> of
  \<^verbatim>\<open>enhanced_main.py\<close>). The whole body is inside \<^verbatim>\<open>try\<close>, and the handler
  \<^verbatim>\<open>except Exception\<close> also catches the two \<open>HTTPException\<close>s raised there.
\<close>

definition student_data_dict :: "StudentData \<Rightarrow> (string \<rightharpoonup> string)" where
  "student_data_dict sd =
     map_of [(''student_name'', rq_student_name sd), (''roll_number'', rq_roll_number sd),
             (''course'', rq_course sd), (''department'', rq_department sd),
             (''admission_date'', rq_admission_date sd), (''purpose'', rq_purpose sd)]"

definition api_generate_document ::
    "env \<Rightarrow> filesystem \<Rightarrow> DocumentRequest \<Rightarrow> (exn + DocumentResponse) \<times> filesystem" where
  "api_generate_document e fs request =
     (let attempt =
        (if universities (rq_university_code request) = None then
           (Inl (HTTPException 400
              (''Invalid university code: '' @ rq_university_code request)), fs)
         else if document_templates (rq_document_type request) = None then
           (Inl (HTTPException 400
              (''Invalid document type: '' @ rq_document_type request)), fs)
         else
           (let student_data = student_data_dict (rq_student_data request) in
            case generate_and_save e fs (rq_university_code request)
                   (rq_document_type request) student_data ''generated'' of
              (Inl err, fs') \<Rightarrow> (Inl err, fs')
            | (Inr result, fs') \<Rightarrow>
                (Inr \<lparr>rs_success = gs_success result, rs_filename = gs_filename result,
                      rs_download_url = gs_download_url result,
                      rs_message = gs_message result,
                      rs_generated_at = isoformat (now_response e)\<rparr>, fs')))
      in case attempt of
           (Inl err, fs') \<Rightarrow>
             (Inl (HTTPException 500 (''Error generating document: '' @ str_exn err)), fs')
         | (Inr response, fs') \<Rightarrow> (Inr response, fs'))"

record document_entry =
  de_filename :: string
  de_size :: nat
  de_created_at :: string
  de_download_url :: string

text \<open>The loop of \<^verbatim>\<open>list_documents\<close> over the names \<^verbatim>\<open>os.listdir\<close> returned.\<close>

fun collect_documents :: "filesystem \<Rightarrow> string \<Rightarrow> string list \<Rightarrow> exn + document_entry list" where
  "collect_documents fs generated_dir [] = Inr []"
| "collect_documents fs generated_dir (filename # rest) =
     (if endswith filename ''.docx'' then
        (let file_path = os_path_join generated_dir filename in
         case os_stat fs file_path of
           Inl err \<Rightarrow> Inl err
         | Inr file_stat \<Rightarrow>
             (case collect_documents fs generated_dir rest of
                Inl err \<Rightarrow> Inl err
              | Inr documents \<Rightarrow>
                  Inr (\<lparr>de_filename = filename, de_size = st_size file_stat,
                        de_created_at = isoformat (st_ctime file_stat),
                        de_download_url = ''/download/'' @ filename\<rparr> # documents)))
      else collect_documents fs generated_dir rest)"

text \<open>\<^verbatim>\<open>documents.sort(key=lambda x: x["created_at"], reverse=True)\<close>: a stable sort
  on the reversed comparison, which is the stable ascending sort of the reversed list,
  reversed. Strings compare by code points.\<close>

definition sort_newest_first :: "document_entry list \<Rightarrow> document_entry list" where
  "sort_newest_first documents = rev (sort_key de_created_at (rev documents))"

definition list_documents :: "filesystem \<Rightarrow> exn + document_entry list" where
  "list_documents fs =
     (let generated_dir = ''generated'' in
      if \<not> os_path_exists fs generated_dir then Inr []
      else
        (case (case os_listdir fs generated_dir of
                 Inl err \<Rightarrow> Inl err
               | Inr names \<Rightarrow> collect_documents fs generated_dir names) of
           Inl err \<Rightarrow> Inl (HTTPException 500 (''Error listing documents: '' @ str_exn err))
         | Inr documents \<Rightarrow> Inr (sort_newest_first documents)))"

text \<open>\<^verbatim>\<open>DELETE /documents/{filename}\<close>: the 404 is raised as it is, every other
  exception becomes a 500.\<close>

definition delete_document :: "filesystem \<Rightarrow> string \<Rightarrow> (exn + string) \<times> filesystem" where
  "delete_document fs filename =
     (let file_path = os_path_join ''generated'' filename in
      if \<not> os_path_exists fs file_path then
        (Inl (HTTPException 404 ''Document not found''), fs)
      else
        (case os_remove fs file_path of
           Inl err \<Rightarrow>
             (Inl (HTTPException 500 (''Error deleting document: '' @ str_exn err)), fs)
         | Inr fs' \<Rightarrow> (Inr (''Document '' @ filename @ '' deleted successfully''), fs')))"

subsection \<open>Sample data\<close>

definition sample_student :: "string \<rightharpoonup> string" where
  "sample_student = map_of
     [(''student_name'', ''John Smith''), (''roll_number'', ''CS2024001''),
      (''course'', ''Bachelor of Science (B.Sc.)''), (''department'', ''Computer Science''),
      (''admission_date'', ''2023-08-15''), (''purpose'', ''Internship application'')]"

definition sample_request :: "string \<Rightarrow> string option \<Rightarrow> string option \<Rightarrow> DocumentRequest" where
  "sample_request year_of_study email phone =
     \<lparr>rq_university_code = ''harvard'', rq_document_type = ''bonafide'',
      rq_student_data = \<lparr>rq_student_name = ''John Smith'', rq_roll_number = ''CS2024001'',
        rq_course = ''Bachelor of Science (B.Sc.)'', rq_department = ''Computer Science'',
        rq_year_of_study = year_of_study, rq_admission_date = ''2023-08-15'',
        rq_email = email, rq_phone = phone, rq_purpose = ''Internship application''\<rparr>\<rparr>"

subsection \<open>What a listing should show\<close>

text \<open>The stored documents are the entries directly below \<^verbatim>\<open>generated\<close> whose name
  ends in \<^verbatim>\<open>.docx\<close>; \<open>listed_entry\<close> is the record the listing gives for such a name:
  the name, the size and the change time of its node, and the download address.\<close>

definition stored_documents :: "filesystem \<Rightarrow> string list" where
  "stored_documents fs = filter (\<lambda>n. endswith n ''.docx'') (children fs [''generated''])"

definition node_stat :: "inode \<Rightarrow> stat_result" where
  "node_stat node = (case node of Dir st \<Rightarrow> st | File st doc \<Rightarrow> st)"

definition listed_entry :: "filesystem \<Rightarrow> string \<Rightarrow> document_entry option" where
  "listed_entry fs n =
     (case map_of fs [''generated'', n] of
        None \<Rightarrow> None
      | Some node \<Rightarrow>
          Some \<lparr>de_filename = n, de_size = st_size (node_stat node),
                de_created_at = isoformat (st_ctime (node_stat node)),
                de_download_url = ''/download/'' @ n\<rparr>)"

text \<open>A small tree for the listing: the directory \<^verbatim>\<open>generated\<close> with two documents,
  the second written an hour after the first, and a text file between them.\<close>

definition sample_tree :: filesystem where
  "sample_tree =
     [([''generated''], Dir \<lparr>st_size = 4096, st_ctime = sample_now\<rparr>),
      ([''generated'', ''a.docx''], File \<lparr>st_size = 36864, st_ctime = sample_now\<rparr> Document),
      ([''generated'', ''notes.txt''],
         File \<lparr>st_size = 12, st_ctime = sample_now\<lparr>minute := 6\<rparr>\<rparr> Document),
      ([''generated'', ''b.docx''],
         File \<lparr>st_size = 36870, st_ctime = sample_now\<lparr>hour := 10\<rparr>\<rparr> Document)]"

text \<open>
  The order of two clock readings, as Python compares \<^verbatim>\<open>datetime\<close> values: year first,
  then month, day, hour, minute, second and microsecond. The readings a clock or a file's
  change time can give have their fields in the ranges of \<^verbatim>\<open>datetime\<close>.
\<close>

definition datetime_key :: "datetime \<Rightarrow> nat list" where
  "datetime_key t = [year t, month t, day t, hour t, minute t, second t, microsecond t]"

definition valid_datetime :: "datetime \<Rightarrow> bool" where
  "valid_datetime t =
     (1 \<le> year t \<and> year t \<le> 9999 \<and> 1 \<le> month t \<and> month t \<le> 12 \<and>
      1 \<le> day t \<and> day t \<le> 31 \<and> hour t < 24 \<and> minute t < 60 \<and> second t < 60 \<and>
      microsecond t < 1000000)"

section \<open>Properties\<close>

subsection \<open>Strings and formats\<close>

lemma str_replace_char:
  "str_replace [a] [b] s = map (\<lambda>c. if c = a then b else c) s"
proof (induction s)
  case Nil
  show ?case by (simp add: str_replace.simps)
next
  case (Cons c cs)
  have "str_replace [a] [b] (c # cs) = (if c = a then b else c) # str_replace [a] [b] cs"
    by (subst str_replace.simps) auto
  then show ?case by (simp add: Cons.IH)
qed

lemma clean_is_underscored:
  "str_replace ''/'' ''_'' (str_replace '' '' ''_'' s) = underscored s"
  by (simp add: str_replace_char underscored_def)

lemma length_zero_pad [simp]: "length (zero_pad w n) = w"
  by (induction w arbitrary: n) simp_all

lemma length_hex_pad [simp]: "length (hex_pad w n) = w"
  by (induction w arbitrary: n) simp_all

lemma zero_pad_numeral:
  "zero_pad (numeral k) n = zero_pad (pred_numeral k) (n div 10) @ [digit_char n]"
  by (simp only: numeral_eq_Suc [of k] zero_pad.simps)

lemma hex_pad_numeral:
  "hex_pad (numeral k) n = hex_pad (pred_numeral k) (n div 16) @ [hex_char n]"
  by (simp only: numeral_eq_Suc [of k] hex_pad.simps)

lemma is_digit_digit_char [simp]: "is_digit (digit_char n)"
proof -
  have "n mod 10 < length ''0123456789''" by simp
  then have "''0123456789'' ! (n mod 10) \<in> set ''0123456789''" by (rule nth_mem)
  then show ?thesis by (simp only: is_digit_def digit_char_def)
qed

lemma is_hex_hex_char [simp]: "is_hex (hex_char n)"
proof -
  have "n mod 16 < length ''0123456789abcdef''" by simp
  then have "''0123456789abcdef'' ! (n mod 16) \<in> set ''0123456789abcdef''" by (rule nth_mem)
  then show ?thesis by (simp only: is_hex_def hex_char_def)
qed

lemma list_all_zero_pad [simp]: "list_all is_digit (zero_pad w n)"
  by (induction w arbitrary: n) simp_all

lemma list_all_hex_pad [simp]: "list_all is_hex (hex_pad w n)"
  by (induction w arbitrary: n) simp_all

lemma length_strftime_compact [simp]: "length (strftime_compact t) = 15"
  by (simp add: strftime_compact_def)

lemma strftime_compact_shape:
  "\<exists>d t'. strftime_compact t = d @ ''_'' @ t' \<and> length d = 8 \<and> length t' = 6 \<and>
     list_all is_digit d \<and> list_all is_digit t'"
  unfolding strftime_compact_def
  by (rule exI [where x = "zero_pad 4 (year t) @ zero_pad 2 (month t) @ zero_pad 2 (day t)"],
      rule exI [where x = "zero_pad 2 (hour t) @ zero_pad 2 (minute t) @ zero_pad 2 (second t)"])
     simp

lemma take8_str_uuid: "take 8 (str_uuid u) = take 8 (hex_pad 32 (u mod 2 ^ 128))"
  by (simp add: str_uuid_def Let_def)

lemma length_unique_id [simp]: "length (take 8 (str_uuid u)) = 8"
  by (simp add: take8_str_uuid)

lemma list_all_take: "list_all P xs \<Longrightarrow> list_all P (take n xs)"
  by (auto simp: list_all_iff dest: in_set_takeD)

lemma hex_unique_id [simp]: "list_all is_hex (take 8 (str_uuid u))"
  by (simp add: take8_str_uuid list_all_take)

lemma sample_stamp: "strftime_compact (now_file sample_env) = ''20250304_090507''"
  by (simp add: sample_env_def sample_now_def strftime_compact_def digit_char_def
      zero_pad_numeral)

lemma sample_unique_id: "take 8 (str_uuid (uuid4 sample_env)) = ''3f2a9c04''"
  by (simp add: sample_env_def take8_str_uuid hex_char_def hex_pad_numeral)

lemma generate_unique_filename_eq:
  "generate_unique_filename e dt name purpose =
     dt @ ''_'' @ underscored name @ ''_'' @ take 20 (underscored purpose) @ ''_'' @
     strftime_compact (now_file e) @ ''_'' @ take 8 (str_uuid (uuid4 e)) @ ''.docx''"
  by (simp add: generate_unique_filename_def Let_def clean_is_underscored)

lemma is_digit_not_sep: "is_digit c \<Longrightarrow> c \<noteq> CHR ''/'' \<and> c \<noteq> CHR '' ''"
  unfolding is_digit_def by auto

lemma is_hex_not_sep: "is_hex c \<Longrightarrow> c \<noteq> CHR ''/'' \<and> c \<noteq> CHR '' ''"
  unfolding is_hex_def by auto

lemma slash_not_digit: "list_all is_digit s \<Longrightarrow> c \<in> set s \<Longrightarrow> c \<noteq> CHR ''/'' \<and> c \<noteq> CHR '' ''"
  by (rule is_digit_not_sep) (simp add: list_all_iff)

lemma slash_not_hex: "list_all is_hex s \<Longrightarrow> c \<in> set s \<Longrightarrow> c \<noteq> CHR ''/'' \<and> c \<noteq> CHR '' ''"
  by (rule is_hex_not_sep) (simp add: list_all_iff)

lemma slash_notin_underscored [simp]: "CHR ''/'' \<notin> set (underscored s)"
  by (auto simp: underscored_def)

lemma space_notin_underscored [simp]: "CHR '' '' \<notin> set (underscored s)"
  by (auto simp: underscored_def)

lemma slash_notin_stamp [simp]: "CHR ''/'' \<notin> set (strftime_compact t)"
proof
  assume a: "CHR ''/'' \<in> set (strftime_compact t)"
  obtain d t' where eq: "strftime_compact t = d @ ''_'' @ t'"
    and d: "list_all is_digit d" and t': "list_all is_digit t'"
    using strftime_compact_shape [of t] by blast
  from a eq have "CHR ''/'' \<in> set d \<or> CHR ''/'' \<in> set t'" by auto
  then show False using slash_not_digit [OF d] slash_not_digit [OF t'] by blast
qed

lemma slash_notin_unique_id [simp]: "CHR ''/'' \<notin> set (take 8 (str_uuid u))"
  using slash_not_hex [OF hex_unique_id [of u], of "CHR ''/''"] by blast

subsection \<open>File names\<close>

text \<open>
  C2. For every document type, student name and purpose, the empty strings included,
  \<^verbatim>\<open>generate_unique_filename\<close> returns (it is a total function, nothing in it raises)
  the string \<open><typeCode>_<cleanName>_<cleanPurpose>_<YYYYMMDD_HHMMSS>_<id>.docx\<close>: the clean
  name is the name with every space and forward slash replaced by an underscore, the clean
  purpose is the purpose treated the same way and cut to its first 20 characters, the stamp
  is eight digits, an underscore and six digits, and the identifier has exactly 8
  characters (the first eight hexadecimal digits of the UUID).
\<close>

theorem generate_unique_filename_form:
  "\<exists>ymd hms ident.
     generate_unique_filename e dt name purpose =
       dt @ ''_'' @ underscored name @ ''_'' @ take 20 (underscored purpose) @ ''_'' @
       (ymd @ ''_'' @ hms) @ ''_'' @ ident @ ''.docx'' \<and>
     length (underscored name) = length name \<and>
     length (take 20 (underscored purpose)) \<le> 20 \<and>
     length ymd = 8 \<and> list_all is_digit ymd \<and>
     length hms = 6 \<and> list_all is_digit hms \<and>
     length ident = 8 \<and> list_all is_hex ident"
proof -
  obtain d t' where eq: "strftime_compact (now_file e) = d @ ''_'' @ t'"
    and shape: "length d = 8" "length t' = 6" "list_all is_digit d" "list_all is_digit t'"
    using strftime_compact_shape [of "now_file e"] by blast
  have "generate_unique_filename e dt name purpose =
       dt @ ''_'' @ underscored name @ ''_'' @ take 20 (underscored purpose) @ ''_'' @
       (d @ ''_'' @ t') @ ''_'' @ take 8 (str_uuid (uuid4 e)) @ ''.docx''"
    by (simp only: generate_unique_filename_eq eq)
  moreover have "length (underscored name) = length name"
    by (simp add: underscored_def)
  moreover have "length (take 20 (underscored purpose)) \<le> 20"
    by simp
  ultimately show ?thesis
    using shape length_unique_id [of "uuid4 e"] hex_unique_id [of "uuid4 e"] by blast
qed

text \<open>The sample call of the module's own test block, at the sample clock reading, and
  the call on three empty strings.\<close>

lemma generate_unique_filename_sample:
  "generate_unique_filename sample_env ''bonafide'' ''John Smith'' ''Internship application'' =
     ''bonafide_John_Smith_Internship_applicati_20250304_090507_3f2a9c04.docx''"
  by (simp add: generate_unique_filename_eq underscored_def sample_stamp sample_unique_id)

lemma generate_unique_filename_empty:
  "generate_unique_filename sample_env [] [] [] = ''___20250304_090507_3f2a9c04.docx''"
  by (simp add: generate_unique_filename_eq underscored_def sample_stamp sample_unique_id)




subsection \<open>Reference data\<close>

lemma universities_None_iff:
  "universities uc = None \<longleftrightarrow> uc \<notin> {''harvard'', ''stanford'', ''mit'', ''generic''}"
  by (simp add: universities_def)

lemma document_templates_None_iff:
  "document_templates dt = None \<longleftrightarrow>
     dt \<notin> {''bonafide'', ''noc'', ''character'', ''transfer'', ''fee_structure'', ''transcript''}"
  by (simp add: document_templates_def)

lemma document_templates_cases:
  assumes "document_templates dt = Some t"
  shows "t_template t \<in> {bonafide_template, noc_template, character_template,
           transfer_template, fee_structure_template, transcript_template}"
  using assms by (auto simp: document_templates_def split: if_splits)

lemma template_code_no_slash:
  assumes "document_templates dt = Some t"
  shows "CHR ''/'' \<notin> set dt"
  using assms by (auto simp: document_templates_def split: if_splits)

subsection \<open>Rendering\<close>

lemma plain_keywords:
  "plain_keyword ''student_name''" "plain_keyword ''roll_number''" "plain_keyword ''course''"
  "plain_keyword ''department''" "plain_keyword ''admission_date''"
  "plain_keyword ''purpose''"
  by (simp_all add: plain_keyword_def is_digit_def)

lemma render_body_complete:
  assumes "sd ''student_name'' = Some n" "sd ''roll_number'' = Some r" "sd ''course'' = Some c"
    and "sd ''department'' = Some d" "sd ''admission_date'' = Some a" "sd ''purpose'' = Some p"
  shows "render_body template sd =
     str_format template
       (map_of [(''student_name'', ''Mr./Ms. '' @ n), (''roll_number'', r), (''course'', c),
                (''department'', d), (''admission_date'', a), (''purpose'', p)])"
  using assms by (simp add: render_body_def getitem_def)

lemma format_bonafide:
  "str_format bonafide_template
     (map_of [(''student_name'', n), (''roll_number'', r), (''course'', c), (''department'', d),
              (''admission_date'', a), (''purpose'', p)]) =
   Inr (''This is to certify that '' @ n @ '', Roll No: '' @ r @ '', is a bonafide student of this institution. He/She has been studying in this institution since '' @ a @ '' in the '' @ c @ '' program in the Department of '' @ d @ ''. This certificate is issued for the purpose of '' @ p @ ''.'')"
  by (simp add: str_format_def bonafide_template_def field_value_def plain_keywords getitem_def)

lemma format_noc:
  "str_format noc_template
     (map_of [(''student_name'', n), (''roll_number'', r), (''course'', c), (''department'', d),
              (''admission_date'', a), (''purpose'', p)]) =
   Inr (''This is to certify that we have no objection to '' @ n @ '', Roll No: '' @ r @ '', a student of '' @ c @ '' program in the Department of '' @ d @ '', for '' @ p @ ''. The student is in good academic standing and has no disciplinary issues.'')"
  by (simp add: str_format_def noc_template_def field_value_def plain_keywords getitem_def)

lemma format_character:
  "str_format character_template
     (map_of [(''student_name'', n), (''roll_number'', r), (''course'', c), (''department'', d),
              (''admission_date'', a), (''purpose'', p)]) =
   Inr (''This is to certify that '' @ n @ '', Roll No: '' @ r @ '', is a student of '' @ c @ '' program in the Department of '' @ d @ ''. During his/her stay in this institution, his/her character and conduct have been found to be satisfactory. This certificate is issued for '' @ p @ ''.'')"
  by (simp add: str_format_def character_template_def field_value_def plain_keywords getitem_def)

lemma format_transfer:
  "str_format transfer_template
     (map_of [(''student_name'', n), (''roll_number'', r), (''course'', c), (''department'', d),
              (''admission_date'', a), (''purpose'', p)]) =
   Inr (''This is to certify that '' @ n @ '', Roll No: '' @ r @ '', was a student of this institution from '' @ a @ '' studying '' @ c @ '' in the Department of '' @ d @ ''. He/She is now seeking transfer for '' @ p @ ''. His/Her character and conduct during the stay were satisfactory.'')"
  by (simp add: str_format_def transfer_template_def field_value_def plain_keywords getitem_def)

lemma format_fee_structure:
  "str_format fee_structure_template
     (map_of [(''student_name'', n), (''roll_number'', r), (''course'', c), (''department'', d),
              (''admission_date'', a), (''purpose'', p)]) =
   Inr (''This letter provides the official fee structure for '' @ n @ '', Roll No: '' @ r @ '', enrolled in '' @ c @ '' program in the Department of '' @ d @ ''. This information is provided for '' @ p @ ''. Please contact the finance office for detailed fee breakdown.'')"
  by (simp add: str_format_def fee_structure_template_def field_value_def plain_keywords
      getitem_def)

lemma format_transcript:
  "str_format transcript_template
     (map_of [(''student_name'', n), (''roll_number'', r), (''course'', c), (''department'', d),
              (''admission_date'', a), (''purpose'', p)]) =
   Inr (''This acknowledges the request for official academic transcripts for '' @ n @ '', Roll No: '' @ r @ '', enrolled in '' @ c @ '' program in the Department of '' @ d @ ''. The transcripts are requested for '' @ p @ ''. Official transcripts will be processed within 5-7 business days.'')"
  by (simp add: str_format_def transcript_template_def field_value_def plain_keywords
      getitem_def)

lemmas format_templates = format_bonafide format_noc format_character format_transfer
  format_fee_structure format_transcript



subsection \<open>Generation\<close>

lemma generate_document_unknown_university:
  assumes "universities uc = None"
  shows "generate_document e uc dt sd = Inl (ValueError (''Invalid university code: '' @ uc))"
  using assms by (simp add: generate_document_def)

lemma generate_document_unknown_type:
  assumes "universities uc = Some u" "document_templates dt = None"
  shows "generate_document e uc dt sd = Inl (ValueError (''Invalid document type: '' @ dt))"
  using assms by (simp add: generate_document_def)


lemma generate_document_success:
  assumes "universities uc = Some u" "document_templates dt = Some t"
    and "render_body (t_template t) sd = Inr body"
    and "sd ''student_name'' = Some n" "sd ''purpose'' = Some p"
  shows "\<exists>doc. generate_document e uc dt sd = Inr (doc, generate_unique_filename e dt n p) \<and>
           title_text doc = t_title t \<and> body_text doc = body \<and> length (paragraphs doc) = 16"
  using assms
  by (simp add: generate_document_def add_watermark_def set_margins_def Document_def Let_def
      getitem_def add_document_metadata_def add_university_logo_placeholder_def
      create_document_header_def create_document_title_def create_document_body_def
      create_document_footer_def add_paragraph_def title_text_def body_text_def
      paragraph_text_def new_run_def new_paragraph_def nth_append)

lemma render_body_succeeds:
  assumes "document_templates dt = Some t"
    and "sd ''student_name'' = Some n" "sd ''roll_number'' = Some r" "sd ''course'' = Some c"
    and "sd ''department'' = Some d" "sd ''admission_date'' = Some a" "sd ''purpose'' = Some p"
  shows "\<exists>body. render_body (t_template t) sd = Inr body"
proof -
  have "\<exists>body. str_format (t_template t)
       (map_of [(''student_name'', ''Mr./Ms. '' @ n), (''roll_number'', r), (''course'', c),
                (''department'', d), (''admission_date'', a), (''purpose'', p)]) = Inr body"
    using document_templates_cases [OF assms(1)]
    by (elim insertE emptyE; simp only: format_templates; blast)
  then show ?thesis
    by (simp only: render_body_complete [OF assms(2-7)])
qed

text \<open>
  C1. For every university code other than \<open>harvard\<close>, \<open>stanford\<close>, \<open>mit\<close> and
  \<open>generic\<close>, \<^verbatim>\<open>generate_and_save\<close> fails with the \<open>ValueError\<close> for the university
  code, whatever the document type, the student data and the output directory are; for a
  known university code and an unknown document type it fails with the \<open>ValueError\<close>
  for the document type. In both cases the directory tree is returned as it was: nothing is
  composed, named or saved (the student data may even lack fields). With both codes
  unknown the first case applies, so the university code is reported.
\<close>

theorem generate_and_save_unknown_code:
  "(uc \<notin> {''harvard'', ''stanford'', ''mit'', ''generic''} \<longrightarrow>
      generate_and_save e fs uc dt sd out =
        (Inl (ValueError (''Invalid university code: '' @ uc)), fs)) \<and>
   (uc \<in> {''harvard'', ''stanford'', ''mit'', ''generic''} \<and>
    dt \<notin> {''bonafide'', ''noc'', ''character'', ''transfer'', ''fee_structure'',
            ''transcript''} \<longrightarrow>
      generate_and_save e fs uc dt sd out =
        (Inl (ValueError (''Invalid document type: '' @ dt)), fs))"
proof (intro conjI impI)
  assume "uc \<notin> {''harvard'', ''stanford'', ''mit'', ''generic''}"
  then have "universities uc = None"
    by (rule iffD2 [OF universities_None_iff])
  then show "generate_and_save e fs uc dt sd out =
      (Inl (ValueError (''Invalid university code: '' @ uc)), fs)"
    by (simp add: generate_and_save_def generate_document_unknown_university)
next
  assume a: "uc \<in> {''harvard'', ''stanford'', ''mit'', ''generic''} \<and>
    dt \<notin> {''bonafide'', ''noc'', ''character'', ''transfer'', ''fee_structure'',
            ''transcript''}"
  then have "universities uc \<noteq> None" and none: "document_templates dt = None"
    by (simp_all add: universities_None_iff document_templates_None_iff)
  then obtain u where "universities uc = Some u"
    by blast
  then show "generate_and_save e fs uc dt sd out =
      (Inl (ValueError (''Invalid document type: '' @ dt)), fs)"
    using none by (simp add: generate_and_save_def generate_document_unknown_type)
qed

theorem generate_and_save_unknown_code_witness:
  "''yale'' \<notin> {''harvard'', ''stanford'', ''mit'', ''generic''} \<and>
   generate_and_save sample_env [] ''yale'' ''diploma'' Map.empty ''generated'' =
     (Inl (ValueError ''Invalid university code: yale''), []) \<and>
   ''mit'' \<in> {''harvard'', ''stanford'', ''mit'', ''generic''} \<and>
   ''diploma'' \<notin> {''bonafide'', ''noc'', ''character'', ''transfer'', ''fee_structure'',
      ''transcript''} \<and>
   generate_and_save sample_env [] ''mit'' ''diploma'' Map.empty ''generated'' =
     (Inl (ValueError ''Invalid document type: diploma''), [])"
  using generate_and_save_unknown_code [of "''yale''" sample_env "[]" "''diploma''" Map.empty
      "''generated''"]
    generate_and_save_unknown_code [of "''mit''" sample_env "[]" "''diploma''" Map.empty
      "''generated''"]
  by simp



text \<open>
  C5. For the university code \<open>harvard\<close>, the document type \<open>bonafide\<close> and the sample
  student of the module's test block, generation succeeds at every clock reading and
  identifier; the title paragraph reads \<open>BONAFIDE CERTIFICATE\<close>, and the body text, given
  in full, contains \<open>Mr./Ms. John Smith\<close>, \<open>Roll No: CS2024001\<close> and
  \<open>Internship application\<close>.
\<close>

theorem sample_bonafide_document:
  "\<exists>doc filename.
     generate_document e ''harvard'' ''bonafide'' sample_student = Inr (doc, filename) \<and>
     title_text doc = ''BONAFIDE CERTIFICATE'' \<and>
     body_text doc = ''This is to certify that Mr./Ms. John Smith, Roll No: CS2024001, is a bonafide student of this institution. He/She has been studying in this institution since 2023-08-15 in the Bachelor of Science (B.Sc.) program in the Department of Computer Science. This certificate is issued for the purpose of Internship application.'' \<and>
     contains ''Mr./Ms. John Smith'' (body_text doc) \<and>
     contains ''Roll No: CS2024001'' (body_text doc) \<and>
     contains ''Internship application'' (body_text doc)"
proof -
  let ?body = "''This is to certify that Mr./Ms. John Smith, Roll No: CS2024001, is a bonafide student of this institution. He/She has been studying in this institution since 2023-08-15 in the Bachelor of Science (B.Sc.) program in the Department of Computer Science. This certificate is issued for the purpose of Internship application.''"
  let ?t = "\<lparr>t_title = ''BONAFIDE CERTIFICATE'', t_template = bonafide_template\<rparr>"
  have f: "sample_student ''student_name'' = Some ''John Smith''"
      "sample_student ''roll_number'' = Some ''CS2024001''"
      "sample_student ''course'' = Some ''Bachelor of Science (B.Sc.)''"
      "sample_student ''department'' = Some ''Computer Science''"
      "sample_student ''admission_date'' = Some ''2023-08-15''"
      "sample_student ''purpose'' = Some ''Internship application''"
    by (simp_all add: sample_student_def)
  have u: "universities ''harvard'' = Some \<lparr>u_name = ''Harvard University'',
      u_address = ''Cambridge, MA 02138'', u_phone = ''(617) 495-1000'',
      u_website = ''harvard.edu'', u_color = ''8B0000''\<rparr>"
    by (simp add: universities_def)
  have t: "document_templates ''bonafide'' = Some ?t"
    by (simp add: document_templates_def)
  have "render_body bonafide_template sample_student = Inr ?body"
    by (simp only: render_body_complete [OF f] format_bonafide) simp
  then have body: "render_body (t_template ?t) sample_student = Inr ?body"
    by simp
  obtain doc where doc:
      "generate_document e ''harvard'' ''bonafide'' sample_student =
         Inr (doc, generate_unique_filename e ''bonafide'' ''John Smith''
           ''Internship application'')"
      "title_text doc = t_title ?t" "body_text doc = ?body"
    using generate_document_success [OF u t body f(1) f(6)] by blast
  have "contains ''Mr./Ms. John Smith'' ?body" "contains ''Roll No: CS2024001'' ?body"
      "contains ''Internship application'' ?body"
    by simp_all
  with doc show ?thesis
    by simp
qed

text \<open>
  C9. Two requests to the generation route that agree on the university code, the document
  type and the six required student fields get the same answer at the same clock readings
  and identifier, and leave the same directory tree with the same document in it, however
  their \<open>email\<close>, \<open>phone\<close> and \<open>year_of_study\<close> differ.
\<close>

theorem optional_fields_ignored:
  assumes "rq_university_code r1 = rq_university_code r2"
    and "rq_document_type r1 = rq_document_type r2"
    and "rq_student_name (rq_student_data r1) = rq_student_name (rq_student_data r2)"
    and "rq_roll_number (rq_student_data r1) = rq_roll_number (rq_student_data r2)"
    and "rq_course (rq_student_data r1) = rq_course (rq_student_data r2)"
    and "rq_department (rq_student_data r1) = rq_department (rq_student_data r2)"
    and "rq_admission_date (rq_student_data r1) = rq_admission_date (rq_student_data r2)"
    and "rq_purpose (rq_student_data r1) = rq_purpose (rq_student_data r2)"
  shows "api_generate_document e fs r1 = api_generate_document e fs r2"
proof -
  have "student_data_dict (rq_student_data r1) = student_data_dict (rq_student_data r2)"
    using assms(3-8) by (simp add: student_data_dict_def)
  then show ?thesis
    using assms(1,2) by (simp add: api_generate_document_def)
qed

theorem optional_fields_ignored_witness:
  "api_generate_document sample_env []
     (sample_request ''2nd Year'' (Some ''john.smith@university.edu'') (Some ''+1-555-0123'')) =
   api_generate_document sample_env [] (sample_request ''5th Year'' None None)"
  by (rule optional_fields_ignored) (simp_all add: sample_request_def)

subsection \<open>Paths\<close>

lemma split_slash_not_Nil [simp]: "split_slash s \<noteq> []"
  by (induction s) (auto split: list.splits)

lemma split_slash_no_slash:
  "CHR ''/'' \<notin> set s \<Longrightarrow> split_slash s = [s]"
  by (induction s) auto

lemma split_slash_parts_no_slash:
  "w \<in> set (split_slash s) \<Longrightarrow> CHR ''/'' \<notin> set w"
proof (induction s arbitrary: w)
  case Nil
  then show ?case by simp
next
  case (Cons c cs)
  show ?case
  proof (cases "c = CHR ''/''")
    case True
    with Cons show ?thesis by auto
  next
    case False
    obtain v vs where vs: "split_slash cs = v # vs"
      by (cases "split_slash cs") auto
    with False Cons.prems have "w = c # v \<or> w \<in> set vs"
      by auto
    then show ?thesis
      using Cons.IH [of v] Cons.IH [of w] vs False by auto
  qed
qed

lemma split_slash_append:
  "split_slash (a @ CHR ''/'' # b) = split_slash a @ split_slash b"
proof (induction a)
  case Nil
  show ?case by simp
next
  case (Cons c a)
  obtain v vs where vs: "split_slash a = v # vs"
    by (cases "split_slash a") auto
  show ?case
    using Cons vs by simp
qed

lemma valid_name_path_key: "list_all valid_name (path_key p)"
  by (auto simp: path_key_def valid_name_def list_all_iff dest: split_slash_parts_no_slash)

lemma path_key_valid_name: "valid_name f \<Longrightarrow> path_key f = [f]"
  by (simp add: path_key_def valid_name_def split_slash_no_slash)

lemma path_key_join:
  assumes "valid_name f"
  shows "path_key (os_path_join d f) = path_key d @ [f]"
proof -
  from assms have f: "f \<noteq> []" "f \<noteq> ''.''" "CHR ''/'' \<notin> set f"
    by (simp_all add: valid_name_def)
  then have hd: "hd f \<noteq> CHR ''/''"
    by (cases f) auto
  show ?thesis
  proof (cases "d = []")
    case True
    then show ?thesis
      using f hd by (simp add: os_path_join_def path_key_def split_slash_no_slash)
  next
    case False
    show ?thesis
    proof (cases "last d = CHR ''/''")
      case True
      with \<open>d \<noteq> []\<close> obtain d' where d: "d = d' @ ''/''"
        by (metis append_butlast_last_id)
      have "split_slash (d' @ CHR ''/'' # f) = split_slash d' @ [f]"
        by (simp add: split_slash_append split_slash_no_slash f)
      moreover have "split_slash (d' @ CHR ''/'' # []) = split_slash d' @ [[]]"
        by (simp add: split_slash_append)
      ultimately show ?thesis
        using f hd d by (simp add: os_path_join_def path_key_def)
    next
      case no_slash: False
      have "split_slash (d @ CHR ''/'' # f) = split_slash d @ [f]"
        by (simp add: split_slash_append split_slash_no_slash f)
      then show ?thesis
        using f hd \<open>d \<noteq> []\<close> no_slash by (simp add: os_path_join_def path_key_def)
    qed
  qed
qed

lemma path_key_generated [simp]: "path_key ''generated'' = [''generated'']"
  by (simp add: path_key_def)

lemma path_key_join_generated:
  "valid_name f \<Longrightarrow> path_key (os_path_join ''generated'' f) = [''generated'', f]"
  by (simp add: path_key_join)

lemma os_path_join_generated:
  "valid_name f \<Longrightarrow> os_path_join ''generated'' f = ''generated/'' @ f"
  by (cases f) (auto simp: os_path_join_def valid_name_def)

lemma last_join_generated:
  "valid_name f \<Longrightarrow> last (os_path_join ''generated'' f) \<noteq> CHR ''/''"
proof -
  assume "valid_name f"
  then have "f \<noteq> []" "CHR ''/'' \<notin> set f"
    by (simp_all add: valid_name_def)
  then have "last f \<noteq> CHR ''/''"
    by (metis last_in_set)
  then show ?thesis
    using \<open>valid_name f\<close> \<open>f \<noteq> []\<close> by (simp add: os_path_join_generated)
qed

subsection \<open>File names are proper names\<close>

lemma endswith_append [simp]: "endswith (s @ suf) suf"
  by (simp add: endswith_def)

lemma generate_unique_filename_endswith:
  "endswith (generate_unique_filename e dt n p) ''.docx''"
proof -
  have "generate_unique_filename e dt n p =
      (dt @ ''_'' @ underscored n @ ''_'' @ take 20 (underscored p) @ ''_'' @
       strftime_compact (now_file e) @ ''_'' @ take 8 (str_uuid (uuid4 e))) @ ''.docx''"
    by (simp add: generate_unique_filename_eq)
  then show ?thesis
    by (simp only: endswith_append)
qed

lemma endswith_docx_valid:
  assumes "endswith f ''.docx''" "CHR ''/'' \<notin> set f"
  shows "valid_name f"
proof -
  from assms(1) have "length f \<ge> 5"
    by (simp add: endswith_def)
  then have "f \<noteq> []" "f \<noteq> ''.''"
    by auto
  with assms(2) show ?thesis
    by (simp add: valid_name_def)
qed

lemma slash_notin_take_underscored [simp]: "CHR ''/'' \<notin> set (take k (underscored s))"
  using slash_notin_underscored [of s] by (auto dest: in_set_takeD)

lemma generate_unique_filename_valid:
  "CHR ''/'' \<notin> set dt \<Longrightarrow> valid_name (generate_unique_filename e dt n p)"
  by (rule endswith_docx_valid [OF generate_unique_filename_endswith])
     (simp add: generate_unique_filename_eq slash_notin_take_underscored)

lemma last_os_path_join: "f \<noteq> [] \<Longrightarrow> last (os_path_join d f) = last f"
  by (simp add: os_path_join_def)

lemma os_path_join_not_Nil: "f \<noteq> [] \<Longrightarrow> os_path_join d f \<noteq> []"
  by (simp add: os_path_join_def)

lemma valid_name_last: "valid_name f \<Longrightarrow> last f \<noteq> CHR ''/''"
  unfolding valid_name_def by (metis last_in_set)


subsection \<open>Nodes of the directory tree\<close>

lemma kind_at_Nil [simp]: "kind_at fs [] = Some IsDir"
  by (simp add: kind_at_def)

lemma kind_at_None_iff: "kind_at fs k = None \<longleftrightarrow> k \<noteq> [] \<and> map_of fs k = None"
  by (auto simp: kind_at_def split: option.splits inode.splits)

lemma kind_at_IsFile_iff:
  "kind_at fs k = Some IsFile \<longleftrightarrow> k \<noteq> [] \<and> (\<exists>st doc. map_of fs k = Some (File st doc))"
  by (auto simp: kind_at_def split: option.splits inode.splits)

lemma kind_at_IsDir_iff:
  "kind_at fs k = Some IsDir \<longleftrightarrow> k = [] \<or> (\<exists>st. map_of fs k = Some (Dir st))"
  by (auto simp: kind_at_def split: option.splits inode.splits)

lemma kind_at_cong: "map_of fs k = map_of fs' k \<Longrightarrow> kind_at fs k = kind_at fs' k"
  by (simp add: kind_at_def)

lemma map_of_append_new:
  "map_of (fs @ [(k, v)]) k' =
     (case map_of fs k' of None \<Rightarrow> if k' = k then Some v else None | Some y \<Rightarrow> Some y)"
  by (simp add: map_of_append map_add_def split: option.splits)

lemma kind_at_append_new:
  "kind_at fs k = None \<Longrightarrow>
     kind_at (fs @ [(k, Dir st)]) k' = (if k' = k then Some IsDir else kind_at fs k')"
  by (auto simp: kind_at_def map_of_append_new split: option.splits inode.splits if_splits)

lemma kind_at_update:
  "kind_at (AList.update k (File st doc) fs) k' =
     (if k' = k \<and> k \<noteq> [] then Some IsFile else kind_at fs k')"
  by (auto simp: kind_at_def update_conv')

lemma kind_at_delete:
  "kind_at (AList.delete k fs) k' = (if k' = k \<and> k \<noteq> [] then None else kind_at fs k')"
  by (auto simp: kind_at_def delete_conv')

lemma keys_delete: "map fst (AList.delete k fs) = filter (\<lambda>k'. k' \<noteq> k) (map fst fs)"
  by (induction fs) auto

lemma keys_update_subset: "set (map fst (AList.update k v fs)) = insert k (set (map fst fs))"
  by (auto simp: update_keys)

lemma wf_fs_append:
  "wf_fs fs \<Longrightarrow> list_all valid_name k \<Longrightarrow> wf_fs (fs @ [(k, v)])"
  by (simp add: wf_fs_def)

lemma wf_fs_update:
  "wf_fs fs \<Longrightarrow> list_all valid_name k \<Longrightarrow> wf_fs (AList.update k v fs)"
  unfolding wf_fs_def list_all_iff keys_update_subset by auto

lemma wf_fs_delete: "wf_fs fs \<Longrightarrow> wf_fs (AList.delete k fs)"
  unfolding wf_fs_def list_all_iff keys_delete by auto

lemma distinct_keys_append:
  "distinct (map fst fs) \<Longrightarrow> map_of fs k = None \<Longrightarrow> distinct (map fst (fs @ [(k, v)]))"
  by (auto simp: map_of_eq_None_iff)

lemma distinct_keys_delete: "distinct (map fst fs) \<Longrightarrow> distinct (map fst (AList.delete k fs))"
  by (simp add: keys_delete)

subsection \<open>Children of a directory\<close>

lemma children_iff:
  "n \<in> set (children fs d) \<longleftrightarrow> d @ [n] \<in> set (map fst fs)"
proof
  assume "n \<in> set (children fs d)"
  then obtain k where k: "k \<in> set (map fst fs)" "k \<noteq> []" "butlast k = d" "last k = n"
    by (auto simp: children_def)
  then have "k = d @ [n]"
    using append_butlast_last_id [of k] by simp
  with k(1) show "d @ [n] \<in> set (map fst fs)"
    by simp
next
  assume "d @ [n] \<in> set (map fst fs)"
  then have "d @ [n] \<in> set (filter (\<lambda>k. k \<noteq> [] \<and> butlast k = d) (map fst fs))"
    by simp
  then have "last (d @ [n]) \<in> last ` set (filter (\<lambda>k. k \<noteq> [] \<and> butlast k = d) (map fst fs))"
    by (rule imageI)
  then show "n \<in> set (children fs d)"
    by (simp add: children_def)
qed

lemma child_node:
  assumes "n \<in> set (children fs d)"
  shows "\<exists>node. map_of fs (d @ [n]) = Some node"
proof -
  from assms have "d @ [n] \<in> fst ` set fs"
    by (simp add: children_iff)
  then have "map_of fs (d @ [n]) \<noteq> None"
    by (simp add: map_of_eq_None_iff)
  then show ?thesis
    by blast
qed

lemma child_valid_name:
  assumes "wf_fs fs" "n \<in> set (children fs d)"
  shows "valid_name n"
proof -
  from assms(2) have "d @ [n] \<in> set (map fst fs)"
    by (simp add: children_iff)
  with assms(1) have "list_all valid_name (d @ [n])"
    by (auto simp: wf_fs_def list_all_iff)
  then show ?thesis
    by simp
qed

lemma node_child:
  "map_of fs (d @ [n]) = Some node \<Longrightarrow> n \<in> set (children fs d)"
  by (auto simp: children_iff dest: map_of_SomeD intro: image_eqI [where x = "(d @ [n], node)"])

lemma children_delete:
  "n \<in> set (children (AList.delete k fs) d) \<longleftrightarrow> n \<in> set (children fs d) \<and> d @ [n] \<noteq> k"
  by (auto simp: children_iff keys_delete)

lemma distinct_children:
  assumes "distinct (map fst fs)"
  shows "distinct (children fs d)"
proof -
  have "inj_on last {k \<in> set (map fst fs). k \<noteq> [] \<and> butlast k = d}"
  proof (rule inj_onI)
    fix x y
    assume "x \<in> {k \<in> set (map fst fs). k \<noteq> [] \<and> butlast k = d}"
      and "y \<in> {k \<in> set (map fst fs). k \<noteq> [] \<and> butlast k = d}"
      and "last x = last y"
    then show "x = y"
      using append_butlast_last_id [of x] append_butlast_last_id [of y] by auto
  qed
  then show ?thesis
    using assms by (simp add: children_def distinct_map distinct_filter)
qed

subsection \<open>Making directories\<close>

lemma mkdir_chain_map_of:
  "mkdir_chain e fs name ks = Inr fs' \<Longrightarrow> map_of fs k = Some v \<Longrightarrow> map_of fs' k = Some v"
proof (induction ks arbitrary: fs)
  case Nil
  then show ?case by simp
next
  case (Cons a ks)
  show ?case
  proof (cases "kind_at fs a")
    case None
    let ?fs1 = "fs @ [(a, Dir \<lparr>st_size = dir_size e, st_ctime = fs_now e\<rparr>)]"
    from None Cons.prems(1) have "mkdir_chain e ?fs1 name ks = Inr fs'"
      by simp
    moreover from Cons.prems(2) have "map_of ?fs1 k = Some v"
      by (simp add: map_of_append_new)
    ultimately show ?thesis
      by (rule Cons.IH)
  next
    case (Some kd)
    with Cons.prems(1) have "mkdir_chain e fs name ks = Inr fs'"
      by (cases kd) simp_all
    then show ?thesis
      using Cons.prems(2) by (rule Cons.IH)
  qed
qed

lemma mkdir_chain_other:
  "mkdir_chain e fs name ks = Inr fs' \<Longrightarrow> k \<notin> set ks \<Longrightarrow> map_of fs' k = map_of fs k"
proof (induction ks arbitrary: fs)
  case Nil
  then show ?case by simp
next
  case (Cons a ks)
  from Cons.prems(2) have k: "k \<noteq> a" "k \<notin> set ks"
    by auto
  show ?case
  proof (cases "kind_at fs a")
    case None
    let ?fs1 = "fs @ [(a, Dir \<lparr>st_size = dir_size e, st_ctime = fs_now e\<rparr>)]"
    from None Cons.prems(1) have "mkdir_chain e ?fs1 name ks = Inr fs'"
      by simp
    then have "map_of fs' k = map_of ?fs1 k"
      using k(2) by (rule Cons.IH)
    also have "\<dots> = map_of fs k"
      using k(1) by (simp add: map_add_def split: option.splits)
    finally show ?thesis .
  next
    case (Some kd)
    with Cons.prems(1) have "mkdir_chain e fs name ks = Inr fs'"
      by (cases kd) simp_all
    then show ?thesis
      using k(2) by (rule Cons.IH)
  qed
qed

lemma mkdir_chain_keeps_dir:
  assumes "mkdir_chain e fs name ks = Inr fs'" "kind_at fs k = Some IsDir"
  shows "kind_at fs' k = Some IsDir"
  using assms by (auto simp: kind_at_IsDir_iff dest: mkdir_chain_map_of)

lemma mkdir_chain_dirs:
  "mkdir_chain e fs name ks = Inr fs' \<Longrightarrow> k \<in> set ks \<Longrightarrow> kind_at fs' k = Some IsDir"
proof (induction ks arbitrary: fs)
  case Nil
  then show ?case by simp
next
  case (Cons a ks)
  let ?fs1 = "fs @ [(a, Dir \<lparr>st_size = dir_size e, st_ctime = fs_now e\<rparr>)]"
  obtain fs1 where fs1: "mkdir_chain e fs1 name ks = Inr fs'" "kind_at fs1 a = Some IsDir"
  proof (cases "kind_at fs a")
    case None
    with Cons.prems(1) have "mkdir_chain e ?fs1 name ks = Inr fs'"
      by simp
    moreover from None have "kind_at ?fs1 a = Some IsDir"
      by (simp add: kind_at_append_new)
    ultimately show ?thesis
      by (rule that)
  next
    case (Some kd)
    with Cons.prems(1) have "mkdir_chain e fs name ks = Inr fs'" "kind_at fs a = Some IsDir"
      by (cases kd; simp)+
    then show ?thesis
      by (rule that)
  qed
  show ?case
  proof (cases "k \<in> set ks")
    case True
    with fs1(1) show ?thesis
      by (rule Cons.IH)
  next
    case False
    with Cons.prems(2) have "k = a"
      by simp
    with fs1 show ?thesis
      by (simp add: mkdir_chain_keeps_dir)
  qed
qed


lemma mkdir_chain_succeeds:
  "\<forall>k \<in> set ks. kind_at fs k \<noteq> Some IsFile \<Longrightarrow> \<exists>fs'. mkdir_chain e fs name ks = Inr fs'"
proof (induction ks arbitrary: fs)
  case Nil
  show ?case by simp
next
  case (Cons a ks)
  show ?case
  proof (cases "kind_at fs a")
    case None
    let ?fs1 = "fs @ [(a, Dir \<lparr>st_size = dir_size e, st_ctime = fs_now e\<rparr>)]"
    from None Cons.prems have "\<forall>k \<in> set ks. kind_at ?fs1 k \<noteq> Some IsFile"
      by (simp add: kind_at_append_new)
    then have "\<exists>fs'. mkdir_chain e ?fs1 name ks = Inr fs'"
      by (rule Cons.IH)
    with None show ?thesis
      by simp
  next
    case (Some kd)
    with Cons.prems have kd: "kd = IsDir"
      by (cases kd) auto
    from Cons.prems have "\<exists>fs'. mkdir_chain e fs name ks = Inr fs'"
      by (intro Cons.IH) simp
    with Some kd show ?thesis
      by simp
  qed
qed

lemma mkdir_chain_wf:
  "mkdir_chain e fs name ks = Inr fs' \<Longrightarrow> wf_fs fs \<Longrightarrow> \<forall>k \<in> set ks. list_all valid_name k \<Longrightarrow>
     wf_fs fs'"
proof (induction ks arbitrary: fs)
  case Nil
  then show ?case by simp
next
  case (Cons a ks)
  show ?case
  proof (cases "kind_at fs a")
    case None
    let ?fs1 = "fs @ [(a, Dir \<lparr>st_size = dir_size e, st_ctime = fs_now e\<rparr>)]"
    from None Cons.prems(1) have "mkdir_chain e ?fs1 name ks = Inr fs'"
      by simp
    moreover from Cons.prems(2,3) have "wf_fs ?fs1"
      by (simp add: wf_fs_append)
    moreover from Cons.prems(3) have "\<forall>k \<in> set ks. list_all valid_name k"
      by simp
    ultimately show ?thesis
      by (rule Cons.IH)
  next
    case (Some kd)
    with Cons.prems(1) have "mkdir_chain e fs name ks = Inr fs'"
      by (cases kd) simp_all
    then show ?thesis
      using Cons.prems(2,3) by (intro Cons.IH) simp_all
  qed
qed

lemma mkdir_chain_distinct:
  "mkdir_chain e fs name ks = Inr fs' \<Longrightarrow> distinct (map fst fs) \<Longrightarrow> distinct (map fst fs')"
proof (induction ks arbitrary: fs)
  case Nil
  then show ?case by simp
next
  case (Cons a ks)
  show ?case
  proof (cases "kind_at fs a")
    case None
    let ?fs1 = "fs @ [(a, Dir \<lparr>st_size = dir_size e, st_ctime = fs_now e\<rparr>)]"
    from None Cons.prems(1) have "mkdir_chain e ?fs1 name ks = Inr fs'"
      by simp
    moreover from None Cons.prems(2) have "distinct (map fst ?fs1)"
      by (intro distinct_keys_append) (simp_all add: kind_at_None_iff)
    ultimately show ?thesis
      by (rule Cons.IH)
  next
    case (Some kd)
    with Cons.prems(1) have "mkdir_chain e fs name ks = Inr fs'"
      by (cases kd) simp_all
    then show ?thesis
      using Cons.prems(2) by (rule Cons.IH)
  qed
qed

lemma prefixes_tl: "prefixes ks = [] # tl (prefixes ks)"
  by (cases ks) simp_all

lemma in_tl_prefixes: "k \<in> set (tl (prefixes ks)) \<Longrightarrow> prefix k ks"
proof -
  assume "k \<in> set (tl (prefixes ks))"
  then have "k \<in> set (prefixes ks)"
    by (subst prefixes_tl) simp
  then show ?thesis
    by simp
qed

lemma tl_prefixes_self: "ks \<noteq> [] \<Longrightarrow> ks \<in> set (tl (prefixes ks))"
proof -
  assume "ks \<noteq> []"
  have "ks \<in> set (prefixes ks)"
    by simp
  then have "ks \<in> set ([] # tl (prefixes ks))"
    by (simp only: prefixes_tl [symmetric])
  with \<open>ks \<noteq> []\<close> show ?thesis
    by simp
qed

lemma prefix_valid_names:
  "prefix k (path_key d) \<Longrightarrow> list_all valid_name k"
  using valid_name_path_key [of d] by (auto simp: prefix_def)

lemma os_makedirs_dir:
  assumes "os_makedirs e fs d = Inr fs1"
  shows "kind_at fs1 (path_key d) = Some IsDir"
proof (cases "path_key d = []")
  case True
  then show ?thesis by simp
next
  case False
  from assms have "mkdir_chain e fs d (tl (prefixes (path_key d))) = Inr fs1"
    by (simp add: os_makedirs_def split: if_splits)
  then show ?thesis
    using tl_prefixes_self [OF False] by (rule mkdir_chain_dirs)
qed



lemma os_makedirs_succeeds:
  assumes "d \<noteq> []" "\<forall>k. prefix k (path_key d) \<longrightarrow> kind_at fs k \<noteq> Some IsFile"
  shows "\<exists>fs1. os_makedirs e fs d = Inr fs1"
proof -
  from assms(2) have "\<forall>k \<in> set (tl (prefixes (path_key d))). kind_at fs k \<noteq> Some IsFile"
    by (auto dest: in_tl_prefixes)
  then have "\<exists>fs1. mkdir_chain e fs d (tl (prefixes (path_key d))) = Inr fs1"
    by (rule mkdir_chain_succeeds)
  with assms(1) show ?thesis
    by (simp add: os_makedirs_def)
qed

lemma os_makedirs_wf:
  assumes "os_makedirs e fs d = Inr fs1" "wf_fs fs"
  shows "wf_fs fs1"
proof -
  from assms(1) have chain: "mkdir_chain e fs d (tl (prefixes (path_key d))) = Inr fs1"
    by (simp add: os_makedirs_def split: if_splits)
  have names: "\<forall>k \<in> set (tl (prefixes (path_key d))). list_all valid_name k"
  proof
    fix k
    assume "k \<in> set (tl (prefixes (path_key d)))"
    then have "prefix k (path_key d)"
      by (rule in_tl_prefixes)
    then show "list_all valid_name k"
      by (rule prefix_valid_names)
  qed
  show ?thesis
    using chain assms(2) names by (rule mkdir_chain_wf)
qed

lemma os_makedirs_other:
  assumes "os_makedirs e fs d = Inr fs1" "\<not> prefix k (path_key d)"
  shows "map_of fs1 k = map_of fs k"
proof -
  from assms(1) have "mkdir_chain e fs d (tl (prefixes (path_key d))) = Inr fs1"
    by (simp add: os_makedirs_def split: if_splits)
  moreover from assms(2) have "k \<notin> set (tl (prefixes (path_key d)))"
    by (auto dest: in_tl_prefixes)
  ultimately show ?thesis
    by (rule mkdir_chain_other)
qed

lemma os_makedirs_distinct:
  assumes "os_makedirs e fs d = Inr fs1" "distinct (map fst fs)"
  shows "distinct (map fst fs1)"
proof -
  from assms(1) have "mkdir_chain e fs d (tl (prefixes (path_key d))) = Inr fs1"
    by (simp add: os_makedirs_def split: if_splits)
  then show ?thesis
    using assms(2) by (rule mkdir_chain_distinct)
qed

subsection \<open>Writing a document\<close>

lemma doc_save_Inr:
  assumes "doc_save e fs doc p = Inr fs'"
  shows "fs' = AList.update (path_key p) (File \<lparr>st_size = docx_size e, st_ctime = fs_now e\<rparr> doc) fs"
    and "p \<noteq> []" and "last p \<noteq> CHR ''/''" and "kind_at fs (path_key p) \<noteq> Some IsDir"
    and "kind_at fs (butlast (path_key p)) = Some IsDir"
  using assms
  by (auto simp: doc_save_def Let_def split: if_splits option.splits kind.splits)

lemma doc_save_succeeds:
  assumes "p \<noteq> []" "last p \<noteq> CHR ''/''" "kind_at fs (path_key p) \<noteq> Some IsDir"
    and "kind_at fs (butlast (path_key p)) = Some IsDir"
  shows "doc_save e fs doc p =
     Inr (AList.update (path_key p) (File \<lparr>st_size = docx_size e, st_ctime = fs_now e\<rparr> doc) fs)"
  using assms by (simp add: doc_save_def Let_def)

lemma save_document_Inr:
  assumes "save_document e fs doc f d = (Inr p, fs')"
  shows "p = os_path_join d f"
    and "\<exists>fs1. os_makedirs e fs d = Inr fs1 \<and> doc_save e fs1 doc (os_path_join d f) = Inr fs'"
  using assms
  by (auto simp: save_document_def Let_def split: sum.splits)

lemma save_document_succeeds:
  assumes "d \<noteq> []" "valid_name f"
    and "\<forall>k. prefix k (path_key d) \<longrightarrow> kind_at fs k \<noteq> Some IsFile"
    and "kind_at fs (path_key d @ [f]) \<noteq> Some IsDir"
  shows "\<exists>fs'. save_document e fs doc f d = (Inr (os_path_join d f), fs')"
proof -
  let ?p = "os_path_join d f"
  from assms(2) have f: "f \<noteq> []"
    by (simp add: valid_name_def)
  obtain fs1 where fs1: "os_makedirs e fs d = Inr fs1"
    using os_makedirs_succeeds [OF assms(1,3)] by blast
  have key: "path_key ?p = path_key d @ [f]"
    using assms(2) by (rule path_key_join)
  have "\<not> prefix (path_key d @ [f]) (path_key d)"
    by (auto simp: prefix_def)
  then have "map_of fs1 (path_key d @ [f]) = map_of fs (path_key d @ [f])"
    by (rule os_makedirs_other [OF fs1])
  then have "kind_at fs1 (path_key d @ [f]) = kind_at fs (path_key d @ [f])"
    by (rule kind_at_cong)
  with assms(4) have notdir: "kind_at fs1 (path_key ?p) \<noteq> Some IsDir"
    by (simp add: key)
  have parent: "kind_at fs1 (butlast (path_key ?p)) = Some IsDir"
    using os_makedirs_dir [OF fs1] by (simp add: key)
  have "?p \<noteq> []" "last ?p \<noteq> CHR ''/''"
    using f valid_name_last [OF assms(2)]
    by (simp_all add: os_path_join_not_Nil last_os_path_join)
  then have "doc_save e fs1 doc ?p =
      Inr (AList.update (path_key ?p)
        (File \<lparr>st_size = docx_size e, st_ctime = fs_now e\<rparr> doc) fs1)"
    using notdir parent by (rule doc_save_succeeds)
  with fs1 show ?thesis
    by (simp add: save_document_def Let_def)
qed

lemma save_document_stored:
  assumes "save_document e fs doc f d = (Inr p, fs')"
  shows "kind_at fs' (path_key d) = Some IsDir"
    and "map_of fs' (path_key p) = Some (File \<lparr>st_size = docx_size e, st_ctime = fs_now e\<rparr> doc)"
    and "path_key p \<noteq> []"
proof -
  from save_document_Inr [OF assms] obtain fs1 where p: "p = os_path_join d f"
    and fs1: "os_makedirs e fs d = Inr fs1" and save: "doc_save e fs1 doc p = Inr fs'"
    by blast
  note s = doc_save_Inr [OF save]
  have dir: "kind_at fs1 (path_key d) = Some IsDir"
    using fs1 by (rule os_makedirs_dir)
  with s(4) have "path_key d \<noteq> path_key p"
    by auto
  with dir show "kind_at fs' (path_key d) = Some IsDir"
    by (simp add: s(1) kind_at_update)
  show "map_of fs' (path_key p) = Some (File \<lparr>st_size = docx_size e, st_ctime = fs_now e\<rparr> doc)"
    by (simp add: s(1) update_conv')
  from s(4) show "path_key p \<noteq> []"
    by auto
qed

lemma save_document_wf:
  assumes "save_document e fs doc f d = (Inr p, fs')" "wf_fs fs"
  shows "wf_fs fs'"
proof -
  from save_document_Inr [OF assms(1)] obtain fs1 where p: "p = os_path_join d f"
    and fs1: "os_makedirs e fs d = Inr fs1" and save: "doc_save e fs1 doc p = Inr fs'"
    by blast
  have "wf_fs fs1"
    using fs1 assms(2) by (rule os_makedirs_wf)
  then have "wf_fs (AList.update (path_key p)
      (File \<lparr>st_size = docx_size e, st_ctime = fs_now e\<rparr> doc) fs1)"
    using valid_name_path_key by (rule wf_fs_update)
  then show ?thesis
    by (simp add: doc_save_Inr(1) [OF save])
qed

lemma save_document_distinct:
  assumes "save_document e fs doc f d = (Inr p, fs')" "distinct (map fst fs)"
  shows "distinct (map fst fs')"
proof -
  from save_document_Inr [OF assms(1)] obtain fs1 where p: "p = os_path_join d f"
    and fs1: "os_makedirs e fs d = Inr fs1" and save: "doc_save e fs1 doc p = Inr fs'"
    by blast
  have "distinct (map fst fs1)"
    using fs1 assms(2) by (rule os_makedirs_distinct)
  then show ?thesis
    by (simp add: doc_save_Inr(1) [OF save] distinct_update)
qed

subsection \<open>Generating and saving\<close>

lemma generate_document_filename:
  assumes "generate_document e uc dt sd = Inr (doc, fn)"
  shows "\<exists>t n p. document_templates dt = Some t \<and> fn = generate_unique_filename e dt n p"
  using assms
  by (auto simp: generate_document_def Let_def split: option.splits sum.splits)

lemma generated_filename_valid:
  assumes "generate_document e uc dt sd = Inr (doc, fn)"
  shows "valid_name fn" and "endswith fn ''.docx''"
proof -
  from generate_document_filename [OF assms] obtain t n p
    where t: "document_templates dt = Some t" and fn: "fn = generate_unique_filename e dt n p"
    by blast
  from t have "CHR ''/'' \<notin> set dt"
    by (rule template_code_no_slash)
  then show "valid_name fn"
    unfolding fn by (rule generate_unique_filename_valid)
  show "endswith fn ''.docx''"
    unfolding fn by (rule generate_unique_filename_endswith)
qed

lemma generate_and_save_Inr:
  assumes "generate_and_save e fs uc dt sd out = (Inr r, fs')"
  shows "\<exists>doc. generate_document e uc dt sd = Inr (doc, gs_filename r) \<and>
           save_document e fs doc (gs_filename r) out = (Inr (gs_file_path r), fs')"
  using assms
  by (auto simp: generate_and_save_def split: sum.splits prod.splits)

lemma generate_and_save_succeeds:
  assumes "generate_document e uc dt sd = Inr (doc, fn)"
    and "save_document e fs doc fn out = (Inr p, fs')"
  shows "generate_and_save e fs uc dt sd out =
     (Inr \<lparr>gs_success = True, gs_filename = fn, gs_file_path = p,
           gs_download_url = ''/download/'' @ fn,
           gs_message = ''Document generated successfully: '' @ fn\<rparr>, fs')"
  using assms by (simp add: generate_and_save_def)

subsection \<open>Listing and deleting\<close>

lemma os_path_exists_generated:
  "os_path_exists fs ''generated'' \<longleftrightarrow> kind_at fs [''generated''] \<noteq> None"
  by (auto simp: os_path_exists_def split: option.splits kind.splits)

lemma os_listdir_generated:
  "kind_at fs [''generated''] = Some IsDir \<Longrightarrow>
     os_listdir fs ''generated'' = Inr (children fs [''generated''])"
  by (simp add: os_listdir_def)

lemma os_stat_child:
  assumes "valid_name n" "map_of fs [''generated'', n] = Some node"
  shows "os_stat fs (os_path_join ''generated'' n) = Inr (node_stat node)"
  using assms last_join_generated [OF assms(1)]
  by (cases node) (simp_all add: os_stat_def path_key_join_generated node_stat_def)

lemma listed_entry_node:
  "map_of fs [''generated'', n] = Some node \<Longrightarrow>
     listed_entry fs n = Some \<lparr>de_filename = n, de_size = st_size (node_stat node),
       de_created_at = isoformat (st_ctime (node_stat node)),
       de_download_url = ''/download/'' @ n\<rparr>"
  by (simp add: listed_entry_def)

lemma collect_documents_names:
  "collect_documents fs g names = Inr docs \<Longrightarrow>
     map de_filename docs = filter (\<lambda>n. endswith n ''.docx'') names"
proof (induction names arbitrary: docs)
  case Nil
  then show ?case by simp
next
  case (Cons n names)
  then show ?case
    by (auto simp: Let_def split: if_splits sum.splits)
qed

lemma collect_documents_generated:
  assumes "wf_fs fs"
  shows "set names \<subseteq> set (children fs [''generated'']) \<Longrightarrow>
     collect_documents fs ''generated'' names =
       Inr (map (\<lambda>n. the (listed_entry fs n)) (filter (\<lambda>n. endswith n ''.docx'') names))"
proof (induction names)
  case Nil
  show ?case by simp
next
  case (Cons n names)
  from Cons.prems have child: "n \<in> set (children fs [''generated''])"
    and rest: "set names \<subseteq> set (children fs [''generated''])"
    by simp_all
  from child_node [OF child] obtain node where node: "map_of fs [''generated'', n] = Some node"
    by auto
  have "valid_name n"
    using assms child by (rule child_valid_name)
  then have stat: "os_stat fs (os_path_join ''generated'' n) = Inr (node_stat node)"
    using node by (rule os_stat_child)
  show ?case
    using Cons.IH [OF rest] stat listed_entry_node [OF node] by (simp add: Let_def)
qed

lemma set_sort_newest_first [simp]: "set (sort_newest_first ds) = set ds"
  by (simp add: sort_newest_first_def)

lemma length_sort_newest_first [simp]: "length (sort_newest_first ds) = length ds"
  by (simp add: sort_newest_first_def)

lemma sorted_sort_newest_first: "sorted (rev (map de_created_at (sort_newest_first ds)))"
  by (simp add: sort_newest_first_def rev_map)

lemma list_documents_absent:
  "kind_at fs [''generated''] = None \<Longrightarrow> list_documents fs = Inr []"
  by (simp add: list_documents_def os_path_exists_generated)

lemma list_documents_dir:
  assumes "wf_fs fs" "kind_at fs [''generated''] = Some IsDir"
  shows "list_documents fs =
     Inr (sort_newest_first (map (\<lambda>n. the (listed_entry fs n)) (stored_documents fs)))"
proof -
  have "collect_documents fs ''generated'' (children fs [''generated'']) =
      Inr (map (\<lambda>n. the (listed_entry fs n)) (stored_documents fs))"
    unfolding stored_documents_def using assms(1) by (rule collect_documents_generated) simp
  then show ?thesis
    using assms(2)
    by (simp add: list_documents_def os_path_exists_generated os_listdir_generated)
qed

lemma list_documents_names:
  assumes "list_documents fs = Inr docs"
  shows "set (map de_filename docs) \<subseteq> set (stored_documents fs)"
proof (cases "kind_at fs [''generated'']")
  case None
  with assms show ?thesis
    by (simp add: list_documents_absent)
next
  case (Some kd)
  show ?thesis
  proof (cases kd)
    case IsFile
    with Some assms show ?thesis
      by (simp add: list_documents_def os_path_exists_generated os_listdir_def)
  next
    case IsDir
    with Some assms obtain ds where ds:
        "collect_documents fs ''generated'' (children fs [''generated'']) = Inr ds"
        "docs = sort_newest_first ds"
      by (auto simp: list_documents_def Let_def os_path_exists_generated os_listdir_generated
          split: sum.splits)
    from collect_documents_names [OF ds(1)] have "map de_filename ds = stored_documents fs"
      by (simp add: stored_documents_def)
    then have "set (map de_filename ds) = set (stored_documents fs)"
      by simp
    then show ?thesis
      by (simp add: ds(2))
  qed
qed

lemma stored_documents_iff:
  "n \<in> set (stored_documents fs) \<longleftrightarrow>
     [''generated'', n] \<in> set (map fst fs) \<and> endswith n ''.docx''"
  by (auto simp: stored_documents_def children_iff)

lemma delete_document_file:
  assumes "valid_name f" "kind_at fs [''generated'', f] = Some IsFile"
  shows "delete_document fs f =
     (Inr (''Document '' @ f @ '' deleted successfully''), AList.delete [''generated'', f] fs)"
proof -
  let ?p = "os_path_join ''generated'' f"
  have "path_key ?p = [''generated'', f]"
    using assms(1) by (rule path_key_join_generated)
  moreover have "last ?p \<noteq> CHR ''/''"
    using assms(1) by (rule last_join_generated)
  moreover have "?p \<noteq> []"
    using assms(1) by (simp add: os_path_join_generated)
  ultimately have p: "path_key ?p = [''generated'', f]" "last ?p \<noteq> CHR ''/''" "?p \<noteq> []"
    by blast+
  with assms(2) have "os_path_exists fs ?p"
    by (simp add: os_path_exists_def)
  moreover from p assms(2) have "os_remove fs ?p = Inr (AList.delete [''generated'', f] fs)"
    by (simp add: os_remove_def)
  ultimately show ?thesis
    by (simp add: delete_document_def Let_def)
qed

lemma delete_document_absent:
  assumes "valid_name f" "kind_at fs [''generated'', f] = None"
  shows "delete_document fs f = (Inl (HTTPException 404 ''Document not found''), fs)"
proof -
  let ?p = "os_path_join ''generated'' f"
  have "path_key ?p = [''generated'', f]"
    using assms(1) by (rule path_key_join_generated)
  with assms(2) have "\<not> os_path_exists fs ?p"
    by (simp add: os_path_exists_def)
  then show ?thesis
    by (simp add: delete_document_def Let_def)
qed

subsection \<open>The sample tree\<close>

lemma isoformat_sample: "isoformat sample_now = ''2025-03-04T09:05:07''"
  by (simp add: isoformat_def sample_now_def zero_pad_numeral digit_char_def)

lemma isoformat_sample_later: "isoformat (sample_now\<lparr>hour := 10\<rparr>) = ''2025-03-04T10:05:07''"
  by (simp add: isoformat_def sample_now_def zero_pad_numeral digit_char_def)

lemma wf_sample_tree: "wf_fs sample_tree"
  by (simp add: wf_fs_def sample_tree_def valid_name_def)

lemma sample_tree_dir: "kind_at sample_tree [''generated''] = Some IsDir"
  by (simp add: kind_at_def sample_tree_def)

lemma sample_tree_children:
  "children sample_tree [''generated''] = [''a.docx'', ''notes.txt'', ''b.docx'']"
  by (simp add: children_def sample_tree_def)

lemma sample_tree_stored: "stored_documents sample_tree = [''a.docx'', ''b.docx'']"
  by (simp add: stored_documents_def sample_tree_children endswith_def)

lemma sample_tree_entries:
  "listed_entry sample_tree ''a.docx'' =
     Some \<lparr>de_filename = ''a.docx'', de_size = 36864, de_created_at = ''2025-03-04T09:05:07'',
            de_download_url = ''/download/a.docx''\<rparr>"
  "listed_entry sample_tree ''b.docx'' =
     Some \<lparr>de_filename = ''b.docx'', de_size = 36870, de_created_at = ''2025-03-04T10:05:07'',
            de_download_url = ''/download/b.docx''\<rparr>"
  by (simp_all add: listed_entry_def sample_tree_def node_stat_def isoformat_sample
      isoformat_sample_later)

lemma list_sample_tree:
  "list_documents sample_tree =
     Inr [\<lparr>de_filename = ''b.docx'', de_size = 36870, de_created_at = ''2025-03-04T10:05:07'',
            de_download_url = ''/download/b.docx''\<rparr>,
          \<lparr>de_filename = ''a.docx'', de_size = 36864, de_created_at = ''2025-03-04T09:05:07'',
            de_download_url = ''/download/a.docx''\<rparr>]"
  by (simp add: list_documents_dir [OF wf_sample_tree sample_tree_dir] sample_tree_stored
      sample_tree_entries sort_newest_first_def)

subsection \<open>What the listing returns\<close>

lemma stored_entry:
  assumes "n \<in> set (stored_documents fs)"
  shows "\<exists>d. listed_entry fs n = Some d \<and> de_filename d = n"
proof -
  from assms have "n \<in> set (children fs [''generated''])"
    by (simp add: stored_documents_def)
  from child_node [OF this] obtain node where "map_of fs [''generated'', n] = Some node"
    by auto
  then show ?thesis
    by (simp add: listed_entry_node)
qed

lemma list_documents_entries:
  assumes "wf_fs fs" "kind_at fs [''generated''] = Some IsDir"
  shows "\<exists>ds. list_documents fs = Inr (sort_newest_first ds) \<and>
           map de_filename ds = stored_documents fs \<and>
           (\<forall>d \<in> set ds. listed_entry fs (de_filename d) = Some d)"
proof -
  let ?ds = "map (\<lambda>n. the (listed_entry fs n)) (stored_documents fs)"
  have "list_documents fs = Inr (sort_newest_first ?ds)"
    using assms by (rule list_documents_dir)
  moreover have "map de_filename ?ds = stored_documents fs"
  proof -
    have "map (\<lambda>n. de_filename (the (listed_entry fs n))) (stored_documents fs) =
        stored_documents fs"
      by (rule map_idI) (use stored_entry [of _ fs] in force)
    then show ?thesis
      by (simp add: comp_def)
  qed
  moreover have "\<forall>d \<in> set ?ds. listed_entry fs (de_filename d) = Some d"
    using stored_entry [of _ fs] by force
  ultimately show ?thesis
    by blast
qed

lemma list_documents_dir_names:
  assumes "wf_fs fs" "kind_at fs [''generated''] = Some IsDir"
  shows "\<exists>docs. list_documents fs = Inr docs \<and>
           set (map de_filename docs) = set (stored_documents fs)"
proof -
  from list_documents_entries [OF assms] obtain ds
    where ds: "list_documents fs = Inr (sort_newest_first ds)"
      "map de_filename ds = stored_documents fs"
    by blast
  have "set (map de_filename (sort_newest_first ds)) = set (map de_filename ds)"
    by simp
  with ds show ?thesis
    by simp
qed

lemma saved_in_generated:
  assumes "wf_fs fs" "generate_and_save e fs uc dt sd ''generated'' = (Inr r, fs1)"
  shows "valid_name (gs_filename r)" and "endswith (gs_filename r) ''.docx''"
    and "wf_fs fs1" and "kind_at fs1 [''generated''] = Some IsDir"
    and "kind_at fs1 [''generated'', gs_filename r] = Some IsFile"
    and "gs_filename r \<in> set (stored_documents fs1)"
proof -
  let ?f = "gs_filename r"
  from generate_and_save_Inr [OF assms(2)] obtain doc
    where gen: "generate_document e uc dt sd = Inr (doc, ?f)"
      and save: "save_document e fs doc ?f ''generated'' = (Inr (gs_file_path r), fs1)"
    by blast
  show valid: "valid_name ?f" and docx: "endswith ?f ''.docx''"
    using generated_filename_valid [OF gen] by blast+
  have "gs_file_path r = os_path_join ''generated'' ?f"
    using save by (rule save_document_Inr(1))
  then have key: "path_key (gs_file_path r) = [''generated'', ?f]"
    using valid by (simp add: path_key_join_generated)
  show "wf_fs fs1"
    using save assms(1) by (rule save_document_wf)
  show "kind_at fs1 [''generated''] = Some IsDir"
    using save_document_stored(1) [OF save] by simp
  have node: "map_of fs1 [''generated'', ?f] =
      Some (File \<lparr>st_size = docx_size e, st_ctime = fs_now e\<rparr> doc)"
    using save_document_stored(2) [OF save] by (simp add: key)
  then show "kind_at fs1 [''generated'', ?f] = Some IsFile"
    by (simp add: kind_at_IsFile_iff)
  from node have "?f \<in> set (children fs1 [''generated''])"
    using node_child [of fs1 "[''generated'']" ?f] by simp
  with docx show "?f \<in> set (stored_documents fs1)"
    by (simp add: stored_documents_def)
qed

lemma sample_generate_document:
  "\<exists>doc. generate_document e ''harvard'' ''bonafide'' sample_student =
     Inr (doc, generate_unique_filename e ''bonafide'' ''John Smith'' ''Internship application'')"
proof -
  let ?t = "\<lparr>t_title = ''BONAFIDE CERTIFICATE'', t_template = bonafide_template\<rparr>"
  have f: "sample_student ''student_name'' = Some ''John Smith''"
      "sample_student ''roll_number'' = Some ''CS2024001''"
      "sample_student ''course'' = Some ''Bachelor of Science (B.Sc.)''"
      "sample_student ''department'' = Some ''Computer Science''"
      "sample_student ''admission_date'' = Some ''2023-08-15''"
      "sample_student ''purpose'' = Some ''Internship application''"
    by (simp_all add: sample_student_def)
  have u: "universities ''harvard'' = Some \<lparr>u_name = ''Harvard University'',
      u_address = ''Cambridge, MA 02138'', u_phone = ''(617) 495-1000'',
      u_website = ''harvard.edu'', u_color = ''8B0000''\<rparr>"
    by (simp add: universities_def)
  have t: "document_templates ''bonafide'' = Some ?t"
    by (simp add: document_templates_def)
  obtain body where "render_body (t_template ?t) sample_student = Inr body"
    using render_body_succeeds [OF t f] by blast
  from generate_document_success [OF u t this f(1) f(6)] show ?thesis
    by blast
qed

lemma sample_generate_and_save:
  assumes "kind_at fs [''generated''] \<noteq> Some IsFile"
    and "kind_at fs [''generated'',
      ''bonafide_John_Smith_Internship_applicati_20250304_090507_3f2a9c04.docx''] \<noteq> Some IsDir"
  shows "\<exists>r fs1. generate_and_save sample_env fs ''harvard'' ''bonafide'' sample_student
       ''generated'' = (Inr r, fs1) \<and>
     gs_filename r = ''bonafide_John_Smith_Internship_applicati_20250304_090507_3f2a9c04.docx'' \<and>
     gs_file_path r =
       ''generated/bonafide_John_Smith_Internship_applicati_20250304_090507_3f2a9c04.docx''"
proof -
  let ?f = "''bonafide_John_Smith_Internship_applicati_20250304_090507_3f2a9c04.docx''"
  from sample_generate_document [of sample_env] obtain doc
    where gen: "generate_document sample_env ''harvard'' ''bonafide'' sample_student =
      Inr (doc, ?f)"
    by (auto simp only: generate_unique_filename_sample)
  have valid: "valid_name ?f"
    by (simp add: valid_name_def)
  have dirs: "\<forall>k. prefix k (path_key ''generated'') \<longrightarrow> kind_at fs k \<noteq> Some IsFile"
    using assms(1) by (auto simp: prefix_Cons)
  have "\<exists>fs'. save_document sample_env fs doc ?f ''generated'' =
      (Inr (os_path_join ''generated'' ?f), fs')"
    using _ valid dirs by (rule save_document_succeeds) (use assms(2) in simp_all)
  then obtain fs1 where
    "save_document sample_env fs doc ?f ''generated'' = (Inr (os_path_join ''generated'' ?f), fs1)"
    by blast
  from generate_and_save_succeeds [OF gen this] show ?thesis
    by (simp add: os_path_join_def)
qed

text \<open>
  C6. Let the tree be well formed and let \<^verbatim>\<open>generate_and_save\<close> succeed on it with the
  default directory \<^verbatim>\<open>generated\<close>. Then the listing of the resulting tree succeeds and
  has an entry with the returned file name; deleting that file name succeeds; the listing of
  the tree after the deletion succeeds and has no entry with that file name; and a second
  deletion of the same file name is answered with the 404 \<open>Document not found\<close> and
  leaves the tree as it is.
\<close>

theorem save_list_delete_round_trip:
  assumes "wf_fs fs"
    and "generate_and_save e fs uc dt sd ''generated'' = (Inr r, fs1)"
  shows "(\<exists>docs. list_documents fs1 = Inr docs \<and> gs_filename r \<in> set (map de_filename docs)) \<and>
     (\<exists>fs2. delete_document fs1 (gs_filename r) =
              (Inr (''Document '' @ gs_filename r @ '' deleted successfully''), fs2) \<and>
            (\<exists>docs. list_documents fs2 = Inr docs \<and>
               gs_filename r \<notin> set (map de_filename docs)) \<and>
            delete_document fs2 (gs_filename r) =
              (Inl (HTTPException 404 ''Document not found''), fs2))"
proof (rule conjI)
  let ?f = "gs_filename r"
  let ?fs2 = "AList.delete [''generated'', ?f] fs1"
  note s = saved_in_generated [OF assms]
  from list_documents_dir_names [OF s(3,4)] s(6)
  show "\<exists>docs. list_documents fs1 = Inr docs \<and> ?f \<in> set (map de_filename docs)"
    by auto
  have del: "delete_document fs1 ?f =
      (Inr (''Document '' @ ?f @ '' deleted successfully''), ?fs2)"
    using s(1,5) by (rule delete_document_file)
  have wf2: "wf_fs ?fs2"
    using s(3) by (rule wf_fs_delete)
  have dir2: "kind_at ?fs2 [''generated''] = Some IsDir"
    using s(4) by (simp add: kind_at_delete)
  have gone: "kind_at ?fs2 [''generated'', ?f] = None"
    by (simp add: kind_at_delete)
  have "?f \<notin> set (stored_documents ?fs2)"
    by (simp add: stored_documents_def children_delete)
  with list_documents_dir_names [OF wf2 dir2]
  have list2: "\<exists>docs. list_documents ?fs2 = Inr docs \<and> ?f \<notin> set (map de_filename docs)"
    by auto
  have "delete_document ?fs2 ?f = (Inl (HTTPException 404 ''Document not found''), ?fs2)"
    using s(1) gone by (rule delete_document_absent)
  with del list2
  show "\<exists>fs2. delete_document fs1 ?f =
              (Inr (''Document '' @ ?f @ '' deleted successfully''), fs2) \<and>
            (\<exists>docs. list_documents fs2 = Inr docs \<and> ?f \<notin> set (map de_filename docs)) \<and>
            delete_document fs2 ?f = (Inl (HTTPException 404 ''Document not found''), fs2)"
    by blast
qed

theorem save_list_delete_round_trip_witness:
  "\<exists>r fs1. wf_fs [] \<and>
     generate_and_save sample_env [] ''harvard'' ''bonafide'' sample_student ''generated'' =
       (Inr r, fs1) \<and>
     gs_filename r = ''bonafide_John_Smith_Internship_applicati_20250304_090507_3f2a9c04.docx'' \<and>
     (\<exists>docs. list_documents fs1 = Inr docs \<and> gs_filename r \<in> set (map de_filename docs)) \<and>
     (\<exists>fs2. delete_document fs1 (gs_filename r) =
              (Inr (''Document '' @ gs_filename r @ '' deleted successfully''), fs2) \<and>
            (\<exists>docs. list_documents fs2 = Inr docs \<and>
               gs_filename r \<notin> set (map de_filename docs)) \<and>
            delete_document fs2 (gs_filename r) =
              (Inl (HTTPException 404 ''Document not found''), fs2))"
proof -
  have "kind_at [] [''generated''] \<noteq> Some IsFile"
    and "kind_at [] [''generated'',
      ''bonafide_John_Smith_Internship_applicati_20250304_090507_3f2a9c04.docx''] \<noteq> Some IsDir"
    by (simp_all add: kind_at_def)
  from sample_generate_and_save [OF this] obtain r fs1
    where r: "generate_and_save sample_env [] ''harvard'' ''bonafide'' sample_student
        ''generated'' = (Inr r, fs1)"
      "gs_filename r = ''bonafide_John_Smith_Internship_applicati_20250304_090507_3f2a9c04.docx''"
    by blast
  have wf: "wf_fs []"
    by (simp add: wf_fs_def)
  from save_list_delete_round_trip [OF wf r(1)] wf r show ?thesis
    by blast
qed

text \<open>
  C10. Every entry of a listing has a file name that ends in \<open>.docx\<close> and is the name of
  an entry of the directory \<^verbatim>\<open>generated\<close>, so an entry of that directory whose name
  does not end in \<open>.docx\<close> is not listed; when the tree is well formed and
  \<^verbatim>\<open>generated\<close> is a directory, the listing succeeds and its file names are exactly
  the names in the directory that end in \<open>.docx\<close>. Every file name made by
  \<^verbatim>\<open>generate_unique_filename\<close> ends in \<open>.docx\<close>; so after a successful
  \<^verbatim>\<open>generate_and_save\<close> into \<^verbatim>\<open>generated\<close> on a well-formed tree the returned
  file name ends in \<open>.docx\<close> and the listing shows it.
\<close>

theorem listing_shows_docx_only:
  "(list_documents fs = Inr docs \<longrightarrow>
      (\<forall>d \<in> set docs. endswith (de_filename d) ''.docx'' \<and>
         de_filename d \<in> set (children fs [''generated''])) \<and>
      (\<forall>n \<in> set (children fs [''generated'']).
         \<not> endswith n ''.docx'' \<longrightarrow> n \<notin> set (map de_filename docs))) \<and>
   (wf_fs fs \<and> kind_at fs [''generated''] = Some IsDir \<longrightarrow>
      (\<exists>docs. list_documents fs = Inr docs \<and>
         set (map de_filename docs) =
           {n \<in> set (children fs [''generated'']). endswith n ''.docx''})) \<and>
   endswith (generate_unique_filename e dt n p) ''.docx'' \<and>
   (wf_fs fs \<and> generate_and_save e fs uc dt sd ''generated'' = (Inr r, fs') \<longrightarrow>
      endswith (gs_filename r) ''.docx'' \<and>
      (\<exists>docs. list_documents fs' = Inr docs \<and> gs_filename r \<in> set (map de_filename docs)))"
proof (intro conjI impI)
  assume "list_documents fs = Inr docs"
  then have names: "set (map de_filename docs) \<subseteq> set (stored_documents fs)"
    by (rule list_documents_names)
  then show "\<forall>d \<in> set docs. endswith (de_filename d) ''.docx'' \<and>
      de_filename d \<in> set (children fs [''generated''])"
    by (auto simp: stored_documents_def)
  from names show "\<forall>n \<in> set (children fs [''generated'']).
      \<not> endswith n ''.docx'' \<longrightarrow> n \<notin> set (map de_filename docs)"
    by (auto simp: stored_documents_def)
next
  assume "wf_fs fs \<and> kind_at fs [''generated''] = Some IsDir"
  then have "\<exists>docs. list_documents fs = Inr docs \<and>
      set (map de_filename docs) = set (stored_documents fs)"
    by (intro list_documents_dir_names) simp_all
  then show "\<exists>docs. list_documents fs = Inr docs \<and>
      set (map de_filename docs) = {n \<in> set (children fs [''generated'']). endswith n ''.docx''}"
    by (simp add: stored_documents_def)
next
  show "endswith (generate_unique_filename e dt n p) ''.docx''"
    by (rule generate_unique_filename_endswith)
next
  assume a: "wf_fs fs \<and> generate_and_save e fs uc dt sd ''generated'' = (Inr r, fs')"
  then have s: "wf_fs fs" "generate_and_save e fs uc dt sd ''generated'' = (Inr r, fs')"
    by simp_all
  show "endswith (gs_filename r) ''.docx''"
    using s by (rule saved_in_generated(2))
  from list_documents_dir_names [OF saved_in_generated(3,4) [OF s]] saved_in_generated(6) [OF s]
  show "\<exists>docs. list_documents fs' = Inr docs \<and> gs_filename r \<in> set (map de_filename docs)"
    by auto
qed

theorem listing_shows_docx_only_witness:
  "list_documents sample_tree =
     Inr [\<lparr>de_filename = ''b.docx'', de_size = 36870, de_created_at = ''2025-03-04T10:05:07'',
            de_download_url = ''/download/b.docx''\<rparr>,
          \<lparr>de_filename = ''a.docx'', de_size = 36864, de_created_at = ''2025-03-04T09:05:07'',
            de_download_url = ''/download/a.docx''\<rparr>] \<and>
   children sample_tree [''generated''] = [''a.docx'', ''notes.txt'', ''b.docx''] \<and>
   \<not> endswith ''notes.txt'' ''.docx'' \<and>
   endswith ''b.docx'' ''.docx'' \<and> ''b.docx'' \<in> set (children sample_tree [''generated'']) \<and>
   endswith ''a.docx'' ''.docx'' \<and> ''a.docx'' \<in> set (children sample_tree [''generated'']) \<and>
   wf_fs sample_tree \<and> kind_at sample_tree [''generated''] = Some IsDir \<and>
   (\<exists>docs. list_documents sample_tree = Inr docs \<and>
      set (map de_filename docs) =
        {n \<in> set (children sample_tree [''generated'']). endswith n ''.docx''}) \<and>
   (\<exists>r fs1. generate_and_save sample_env sample_tree ''harvard'' ''bonafide'' sample_student
        ''generated'' = (Inr r, fs1) \<and>
      endswith (gs_filename r) ''.docx'' \<and>
      (\<exists>docs. list_documents fs1 = Inr docs \<and> gs_filename r \<in> set (map de_filename docs)))"
proof -
  let ?docs = "[\<lparr>de_filename = ''b.docx'', de_size = 36870,
                  de_created_at = ''2025-03-04T10:05:07'',
                  de_download_url = ''/download/b.docx''\<rparr>,
                \<lparr>de_filename = ''a.docx'', de_size = 36864,
                  de_created_at = ''2025-03-04T09:05:07'',
                  de_download_url = ''/download/a.docx''\<rparr>]"
  have "kind_at sample_tree [''generated''] \<noteq> Some IsFile"
    and "kind_at sample_tree [''generated'',
      ''bonafide_John_Smith_Internship_applicati_20250304_090507_3f2a9c04.docx''] \<noteq> Some IsDir"
    by (simp_all add: kind_at_def sample_tree_def)
  from sample_generate_and_save [OF this] obtain r fs1
    where r: "generate_and_save sample_env sample_tree ''harvard'' ''bonafide'' sample_student
        ''generated'' = (Inr r, fs1)"
    by blast
  note t = listing_shows_docx_only [where fs = sample_tree and docs = ?docs and fs' = fs1
      and r = r and e = sample_env and uc = "''harvard''" and dt = "''bonafide''"
      and sd = sample_student]
  from t list_sample_tree
  have "\<forall>d \<in> set ?docs. endswith (de_filename d) ''.docx'' \<and>
      de_filename d \<in> set (children sample_tree [''generated''])"
    by blast
  then have listed: "endswith ''b.docx'' ''.docx''"
      "''b.docx'' \<in> set (children sample_tree [''generated''])"
      "endswith ''a.docx'' ''.docx''"
      "''a.docx'' \<in> set (children sample_tree [''generated''])"
    by simp_all
  from t wf_sample_tree sample_tree_dir
  have names: "\<exists>docs. list_documents sample_tree = Inr docs \<and>
      set (map de_filename docs) =
        {n \<in> set (children sample_tree [''generated'']). endswith n ''.docx''}"
    by blast
  from t wf_sample_tree r
  have "endswith (gs_filename r) ''.docx'' \<and>
      (\<exists>docs. list_documents fs1 = Inr docs \<and> gs_filename r \<in> set (map de_filename docs))"
    by blast
  with r have saved: "\<exists>r fs1. generate_and_save sample_env sample_tree ''harvard'' ''bonafide''
        sample_student ''generated'' = (Inr r, fs1) \<and>
      endswith (gs_filename r) ''.docx'' \<and>
      (\<exists>docs. list_documents fs1 = Inr docs \<and> gs_filename r \<in> set (map de_filename docs))"
    by blast
  have "\<not> endswith ''notes.txt'' ''.docx''"
    by (simp add: endswith_def)
  then show ?thesis
    using list_sample_tree sample_tree_children listed names saved wf_sample_tree sample_tree_dir
    by (intro conjI)
qed

subsection \<open>The path a save returns\<close>





subsection \<open>The order of the time stamps\<close>

lemma of_char_digit_char:
  assumes "n < 10"
  shows "of_char (digit_char n) = (48 + n :: nat)"
proof -
  from assms have "n \<in> {0, 1, 2, 3, 4, 5, 6, 7, 8, 9}"
    by auto
  then show ?thesis
    by (elim insertE emptyE) (simp_all add: digit_char_def)
qed

lemma digit_char_less:
  assumes "a < 10" "b < 10"
  shows "digit_char a < digit_char b \<longleftrightarrow> a < b"
  by (simp add: less_char_def of_char_digit_char assms)

lemma digit_char_eq:
  assumes "a < 10" "b < 10"
  shows "digit_char a = digit_char b \<longleftrightarrow> a = b"
proof
  assume "digit_char a = digit_char b"
  then have "(of_char (digit_char a) :: nat) = of_char (digit_char b)"
    by simp
  then show "a = b"
    by (simp add: of_char_digit_char assms)
qed simp

lemma digit_char_mod: "digit_char (n mod 10) = digit_char n"
  by (simp add: digit_char_def)

lemma append_less_append:
  fixes xs ys :: "'a::linorder list"
  assumes "length xs = length ys"
  shows "xs @ u < ys @ v \<longleftrightarrow> xs < ys \<or> (xs = ys \<and> u < v)"
  using assms by (induction xs ys rule: list_induct2) auto

lemma div10_less: "a < 10 ^ Suc w \<Longrightarrow> a div 10 < (10::nat) ^ w"
  by (simp add: less_mult_imp_div_less mult.commute)

lemma lex_pair:
  fixes qa qb ra rb :: nat
  assumes "ra < 10" "rb < 10"
  shows "10 * qa + ra < 10 * qb + rb \<longleftrightarrow> qa < qb \<or> (qa = qb \<and> ra < rb)"
  using assms by linarith

lemma lex_div_mod:
  "(a::nat) < b \<longleftrightarrow> a div 10 < b div 10 \<or> (a div 10 = b div 10 \<and> a mod 10 < b mod 10)"
  using lex_pair [of "a mod 10" "b mod 10" "a div 10" "b div 10"] by simp

lemma eq_div_mod: "(a::nat) = b \<longleftrightarrow> a div 10 = b div 10 \<and> a mod 10 = b mod 10"
proof
  assume "a div 10 = b div 10 \<and> a mod 10 = b mod 10"
  then have "10 * (a div 10) + a mod 10 = 10 * (b div 10) + b mod 10"
    by simp
  then show "a = b"
    by (simp only: mult_div_mod_eq)
qed simp

lemma zero_pad_less_eq:
  "a < 10 ^ w \<Longrightarrow> b < 10 ^ w \<Longrightarrow>
     (zero_pad w a < zero_pad w b \<longleftrightarrow> a < b) \<and> (zero_pad w a = zero_pad w b \<longleftrightarrow> a = b)"
proof (induction w arbitrary: a b)
  case 0
  then show ?case by simp
next
  case (Suc w)
  have d: "a div 10 < 10 ^ w" "b div 10 < 10 ^ w"
    using Suc.prems by (simp_all only: div10_less)
  note IH = Suc.IH [OF d]
  have m: "a mod 10 < 10" "b mod 10 < 10"
    by simp_all
  have less: "digit_char a < digit_char b \<longleftrightarrow> a mod 10 < b mod 10"
    using digit_char_less [OF m] by (simp only: digit_char_mod)
  have eq: "digit_char a = digit_char b \<longleftrightarrow> a mod 10 = b mod 10"
    using digit_char_eq [OF m] by (simp only: digit_char_mod)
  have "zero_pad (Suc w) a < zero_pad (Suc w) b \<longleftrightarrow>
      zero_pad w (a div 10) < zero_pad w (b div 10) \<or>
      (zero_pad w (a div 10) = zero_pad w (b div 10) \<and> [digit_char a] < [digit_char b])"
    by (simp only: zero_pad.simps) (rule append_less_append, simp)
  also have "\<dots> \<longleftrightarrow> a div 10 < b div 10 \<or> (a div 10 = b div 10 \<and> a mod 10 < b mod 10)"
    using IH less by simp
  also have "\<dots> \<longleftrightarrow> a < b"
    by (rule lex_div_mod [symmetric])
  finally have 1: "zero_pad (Suc w) a < zero_pad (Suc w) b \<longleftrightarrow> a < b" .
  have "zero_pad (Suc w) a = zero_pad (Suc w) b \<longleftrightarrow>
      zero_pad w (a div 10) = zero_pad w (b div 10) \<and> digit_char a = digit_char b"
    by simp
  also have "\<dots> \<longleftrightarrow> a div 10 = b div 10 \<and> a mod 10 = b mod 10"
    using IH eq by simp
  also have "\<dots> \<longleftrightarrow> a = b"
    by (rule eq_div_mod [symmetric])
  finally have 2: "zero_pad (Suc w) a = zero_pad (Suc w) b \<longleftrightarrow> a = b" .
  from 1 2 show ?case
    by (rule conjI)
qed

lemma zero_pad_less: "a < 10 ^ w \<Longrightarrow> b < 10 ^ w \<Longrightarrow> zero_pad w a < zero_pad w b \<longleftrightarrow> a < b"
  using zero_pad_less_eq by blast

lemma zero_pad_eq: "a < 10 ^ w \<Longrightarrow> b < 10 ^ w \<Longrightarrow> zero_pad w a = zero_pad w b \<longleftrightarrow> a = b"
  using zero_pad_less_eq by blast

lemma zero_pad_append_less:
  assumes "a < 10 ^ w" "b < 10 ^ w"
  shows "zero_pad w a @ u < zero_pad w b @ v \<longleftrightarrow> a < b \<or> (a = b \<and> u < v)"
proof -
  have "zero_pad w a @ u < zero_pad w b @ v \<longleftrightarrow>
      zero_pad w a < zero_pad w b \<or> (zero_pad w a = zero_pad w b \<and> u < v)"
    by (rule append_less_append) simp
  then show ?thesis
    by (simp only: zero_pad_less [OF assms] zero_pad_eq [OF assms])
qed

lemma isoformat_less_iff:
  assumes "valid_datetime a" "valid_datetime b"
  shows "isoformat a < isoformat b \<longleftrightarrow> datetime_key a < datetime_key b"
proof -
  from assms have bounds:
    "year a < 10 ^ 4" "month a < 10 ^ 2" "day a < 10 ^ 2" "hour a < 10 ^ 2"
    "minute a < 10 ^ 2" "second a < 10 ^ 2" "microsecond a < 10 ^ 6"
    "year b < 10 ^ 4" "month b < 10 ^ 2" "day b < 10 ^ 2" "hour b < 10 ^ 2"
    "minute b < 10 ^ 2" "second b < 10 ^ 2" "microsecond b < 10 ^ 6"
    by (simp_all add: valid_datetime_def)
  let ?frac = "\<lambda>t. if microsecond t = 0 then [] else CHR ''.'' # zero_pad 6 (microsecond t)"
  have frac: "?frac a < ?frac b \<longleftrightarrow> microsecond a < microsecond b"
    using zero_pad_less [OF bounds(7) bounds(14)] by auto
  have iso: "isoformat t =
      zero_pad 4 (year t) @ CHR ''-'' # zero_pad 2 (month t) @ CHR ''-'' # zero_pad 2 (day t) @
      CHR ''T'' # zero_pad 2 (hour t) @ CHR '':'' # zero_pad 2 (minute t) @
      CHR '':'' # zero_pad 2 (second t) @ ?frac t" for t
    by (simp add: isoformat_def)
  have "isoformat a < isoformat b \<longleftrightarrow>
      year a < year b \<or> (year a = year b \<and>
      (month a < month b \<or> (month a = month b \<and>
      (day a < day b \<or> (day a = day b \<and>
      (hour a < hour b \<or> (hour a = hour b \<and>
      (minute a < minute b \<or> (minute a = minute b \<and>
      (second a < second b \<or> (second a = second b \<and> ?frac a < ?frac b)))))))))))"
    unfolding iso
    by (simp only: zero_pad_append_less bounds Cons_less_Cons less_irrefl simp_thms)
  also have "\<dots> \<longleftrightarrow> datetime_key a < datetime_key b"
    unfolding frac by (simp add: datetime_key_def)
  finally show ?thesis .
qed

lemma isoformat_le_iff:
  assumes "valid_datetime a" "valid_datetime b"
  shows "isoformat a \<le> isoformat b \<longleftrightarrow> datetime_key a \<le> datetime_key b"
  using isoformat_less_iff [OF assms(2,1)] by (simp only: linorder_not_less [symmetric])

subsection \<open>The listing, newest first\<close>

lemma mset_sort_newest_first [simp]: "mset (sort_newest_first ds) = mset ds"
  by (simp add: sort_newest_first_def)

lemma listed_entry_SomeD:
  assumes "listed_entry fs n = Some d"
  shows "\<exists>node. map_of fs [''generated'', n] = Some node \<and> de_filename d = n \<and>
           de_size d = st_size (node_stat node) \<and>
           de_created_at d = isoformat (st_ctime (node_stat node)) \<and>
           de_download_url d = ''/download/'' @ n"
  using assms by (auto simp: listed_entry_def split: option.splits)

lemma distinct_stored_documents:
  "distinct (map fst fs) \<Longrightarrow> distinct (stored_documents fs)"
  by (simp add: stored_documents_def distinct_children)

text \<open>
  C8. If the directory \<^verbatim>\<open>generated\<close> does not exist the listing is empty. If the tree
  is well formed and \<^verbatim>\<open>generated\<close> is a directory, the listing succeeds; its file names
  are the names in \<^verbatim>\<open>generated\<close> that end in \<open>.docx\<close>, each as often as the directory
  has it (once, when the directory has no name twice); every record carries the file name,
  the size and the ISO text of the change time of the node of that name, and the download
  address; and the records are in descending order of \<open>created_at\<close>: of two records the
  earlier one has the greater or equal time stamp, which for change times in the range of
  \<^verbatim>\<open>datetime\<close> means that it is not older than the later one.
\<close>

theorem list_documents_newest_first:
  "(kind_at fs [''generated''] = None \<longrightarrow> list_documents fs = Inr []) \<and>
   (wf_fs fs \<and> kind_at fs [''generated''] = Some IsDir \<longrightarrow>
      (\<exists>docs. list_documents fs = Inr docs \<and>
         mset (map de_filename docs) = mset (stored_documents fs) \<and>
         (distinct (map fst fs) \<longrightarrow> distinct (map de_filename docs)) \<and>
         (\<forall>d \<in> set docs. listed_entry fs (de_filename d) = Some d) \<and>
         sorted (rev (map de_created_at docs)) \<and>
         (\<forall>i j. i < j \<and> j < length docs \<longrightarrow>
            (\<exists>ni nj. map_of fs [''generated'', de_filename (docs ! i)] = Some ni \<and>
               map_of fs [''generated'', de_filename (docs ! j)] = Some nj \<and>
               de_created_at (docs ! i) = isoformat (st_ctime (node_stat ni)) \<and>
               de_created_at (docs ! j) = isoformat (st_ctime (node_stat nj)) \<and>
               de_created_at (docs ! j) \<le> de_created_at (docs ! i) \<and>
               (valid_datetime (st_ctime (node_stat ni)) \<and>
                valid_datetime (st_ctime (node_stat nj)) \<longrightarrow>
                  datetime_key (st_ctime (node_stat nj)) \<le>
                    datetime_key (st_ctime (node_stat ni)))))))"
proof (rule conjI; rule impI)
  assume "kind_at fs [''generated''] = None"
  then show "list_documents fs = Inr []"
    by (rule list_documents_absent)
next
  assume "wf_fs fs \<and> kind_at fs [''generated''] = Some IsDir"
  then have wf: "wf_fs fs" and dir: "kind_at fs [''generated''] = Some IsDir"
    by simp_all
  from list_documents_entries [OF wf dir] obtain ds
    where list: "list_documents fs = Inr (sort_newest_first ds)"
      and names: "map de_filename ds = stored_documents fs"
      and entries: "\<forall>d \<in> set ds. listed_entry fs (de_filename d) = Some d"
    by blast
  let ?docs = "sort_newest_first ds"
  have "mset (map de_filename ?docs) = mset (map de_filename ds)"
    by simp
  then have count: "mset (map de_filename ?docs) = mset (stored_documents fs)"
    by (simp only: names)
  have once: "distinct (map fst fs) \<longrightarrow> distinct (map de_filename ?docs)"
  proof
    assume "distinct (map fst fs)"
    then have "distinct (stored_documents fs)"
      by (rule distinct_stored_documents)
    with count show "distinct (map de_filename ?docs)"
      by (simp only: mset_eq_imp_distinct_iff [OF count])
  qed
  have records: "\<forall>d \<in> set ?docs. listed_entry fs (de_filename d) = Some d"
    using entries by simp
  have sorted: "sorted (rev (map de_created_at ?docs))"
    by (rule sorted_sort_newest_first)
  have pairs: "\<exists>ni nj. map_of fs [''generated'', de_filename (?docs ! i)] = Some ni \<and>
      map_of fs [''generated'', de_filename (?docs ! j)] = Some nj \<and>
      de_created_at (?docs ! i) = isoformat (st_ctime (node_stat ni)) \<and>
      de_created_at (?docs ! j) = isoformat (st_ctime (node_stat nj)) \<and>
      de_created_at (?docs ! j) \<le> de_created_at (?docs ! i) \<and>
      (valid_datetime (st_ctime (node_stat ni)) \<and> valid_datetime (st_ctime (node_stat nj)) \<longrightarrow>
         datetime_key (st_ctime (node_stat nj)) \<le> datetime_key (st_ctime (node_stat ni)))"
    if ij: "i < j \<and> j < length ?docs" for i j
  proof -
    from ij have i: "i < length ?docs" and j: "j < length ?docs" and le: "i \<le> j"
      by simp_all
    from i j have "?docs ! i \<in> set ?docs" "?docs ! j \<in> set ?docs"
      by (simp_all only: nth_mem)
    with records have "listed_entry fs (de_filename (?docs ! i)) = Some (?docs ! i)"
      and "listed_entry fs (de_filename (?docs ! j)) = Some (?docs ! j)"
      by blast+
    then obtain ni nj where ni: "map_of fs [''generated'', de_filename (?docs ! i)] = Some ni"
        "de_created_at (?docs ! i) = isoformat (st_ctime (node_stat ni))"
      and nj: "map_of fs [''generated'', de_filename (?docs ! j)] = Some nj"
        "de_created_at (?docs ! j) = isoformat (st_ctime (node_stat nj))"
      by (blast dest: listed_entry_SomeD)
    have "map de_created_at ?docs ! j \<le> map de_created_at ?docs ! i"
      using sorted le j by (intro sorted_rev_nth_mono) simp_all
    with i j have order: "de_created_at (?docs ! j) \<le> de_created_at (?docs ! i)"
      by simp
    have "datetime_key (st_ctime (node_stat nj)) \<le> datetime_key (st_ctime (node_stat ni))"
      if "valid_datetime (st_ctime (node_stat ni)) \<and> valid_datetime (st_ctime (node_stat nj))"
    proof -
      from that have "valid_datetime (st_ctime (node_stat nj))"
        and "valid_datetime (st_ctime (node_stat ni))"
        by simp_all
      from isoformat_le_iff [OF this] order show ?thesis
        by (simp only: ni(2) nj(2))
    qed
    with ni nj order show ?thesis
      by blast
  qed
  have ordered: "\<forall>i j. i < j \<and> j < length ?docs \<longrightarrow>
      (\<exists>ni nj. map_of fs [''generated'', de_filename (?docs ! i)] = Some ni \<and>
         map_of fs [''generated'', de_filename (?docs ! j)] = Some nj \<and>
         de_created_at (?docs ! i) = isoformat (st_ctime (node_stat ni)) \<and>
         de_created_at (?docs ! j) = isoformat (st_ctime (node_stat nj)) \<and>
         de_created_at (?docs ! j) \<le> de_created_at (?docs ! i) \<and>
         (valid_datetime (st_ctime (node_stat ni)) \<and>
          valid_datetime (st_ctime (node_stat nj)) \<longrightarrow>
            datetime_key (st_ctime (node_stat nj)) \<le>
              datetime_key (st_ctime (node_stat ni))))"
    by (intro allI impI) (rule pairs)
  from list count once records sorted ordered
  show "\<exists>docs. list_documents fs = Inr docs \<and>
         mset (map de_filename docs) = mset (stored_documents fs) \<and>
         (distinct (map fst fs) \<longrightarrow> distinct (map de_filename docs)) \<and>
         (\<forall>d \<in> set docs. listed_entry fs (de_filename d) = Some d) \<and>
         sorted (rev (map de_created_at docs)) \<and>
         (\<forall>i j. i < j \<and> j < length docs \<longrightarrow>
            (\<exists>ni nj. map_of fs [''generated'', de_filename (docs ! i)] = Some ni \<and>
               map_of fs [''generated'', de_filename (docs ! j)] = Some nj \<and>
               de_created_at (docs ! i) = isoformat (st_ctime (node_stat ni)) \<and>
               de_created_at (docs ! j) = isoformat (st_ctime (node_stat nj)) \<and>
               de_created_at (docs ! j) \<le> de_created_at (docs ! i) \<and>
               (valid_datetime (st_ctime (node_stat ni)) \<and>
                valid_datetime (st_ctime (node_stat nj)) \<longrightarrow>
                  datetime_key (st_ctime (node_stat nj)) \<le>
                    datetime_key (st_ctime (node_stat ni)))))"
    by (intro exI [of _ ?docs] conjI)
qed

theorem list_documents_newest_first_witness:
  "kind_at [] [''generated''] = None \<and> list_documents [] = Inr [] \<and>
   wf_fs sample_tree \<and> kind_at sample_tree [''generated''] = Some IsDir \<and>
   list_documents sample_tree =
     Inr [\<lparr>de_filename = ''b.docx'', de_size = 36870, de_created_at = ''2025-03-04T10:05:07'',
            de_download_url = ''/download/b.docx''\<rparr>,
          \<lparr>de_filename = ''a.docx'', de_size = 36864, de_created_at = ''2025-03-04T09:05:07'',
            de_download_url = ''/download/a.docx''\<rparr>] \<and>
   stored_documents sample_tree = [''a.docx'', ''b.docx''] \<and>
   mset [''b.docx'', ''a.docx''] = mset (stored_documents sample_tree) \<and>
   sorted (rev [''2025-03-04T10:05:07'', ''2025-03-04T09:05:07'']) \<and>
   valid_datetime sample_now \<and> valid_datetime (sample_now\<lparr>hour := 10\<rparr>) \<and>
   datetime_key sample_now \<le> datetime_key (sample_now\<lparr>hour := 10\<rparr>)"
proof -
  let ?docs = "[\<lparr>de_filename = ''b.docx'', de_size = 36870,
                  de_created_at = ''2025-03-04T10:05:07'',
                  de_download_url = ''/download/b.docx''\<rparr>,
                \<lparr>de_filename = ''a.docx'', de_size = 36864,
                  de_created_at = ''2025-03-04T09:05:07'',
                  de_download_url = ''/download/a.docx''\<rparr>]"
  have absent: "kind_at [] [''generated''] = None"
    by (simp add: kind_at_def)
  with list_documents_newest_first [of "[]"] have empty: "list_documents [] = Inr []"
    by blast
  from list_documents_newest_first [of sample_tree] wf_sample_tree sample_tree_dir
  obtain docs where docs: "list_documents sample_tree = Inr docs"
      "mset (map de_filename docs) = mset (stored_documents sample_tree)"
      "sorted (rev (map de_created_at docs))"
    by blast
  from docs(1) have "docs = ?docs"
    by (simp add: list_sample_tree)
  with docs have "mset [''b.docx'', ''a.docx''] = mset (stored_documents sample_tree)"
    and "sorted (rev [''2025-03-04T10:05:07'', ''2025-03-04T09:05:07''])"
    by simp_all
  moreover have "valid_datetime sample_now" "valid_datetime (sample_now\<lparr>hour := 10\<rparr>)"
    "datetime_key sample_now \<le> datetime_key (sample_now\<lparr>hour := 10\<rparr>)"
    by (simp_all add: valid_datetime_def datetime_key_def sample_now_def)
  ultimately show ?thesis
    using absent empty wf_sample_tree sample_tree_dir list_sample_tree sample_tree_stored
    by (intro conjI)
qed

end
